theory Spec2Isabelle
  imports Complex_Main "HOL-Library.Sublist"
begin

section \<open>Values: float64 cells and computed numbers\<close>

text \<open>
  The library works on pandas columns of dtype float64. A cell of the input table holds
  a real number, one of the two infinities, or is missing (pandas writes a missing
  number as NaN). Computed values (the transformed column, the statistics, the bounds)
  are IEEE-754 numbers: finite, NaN, or infinite.

  Finite arithmetic keeps the range of float64 and not its precision. A sum, product or
  quotient at or beyond \<open>2^1024 - 2^970\<close> in magnitude, where float64 rounds to
  infinity, is infinite; a product or quotient of magnitude at most \<open>2^-1075\<close>, which
  float64 rounds to zero, is 0 (a sum or difference of two float64 numbers is never
  rounded to zero). Every other finite result is the exact real number: rounding to 53
  bits is not modelled.
\<close>

datatype cell = NA | Val real | PlusInf | MinusInf

datatype float64 = NaN | NegInf | Num real | PosInf

fun to_float :: "cell \<Rightarrow> float64" where
  "to_float NA = NaN"
| "to_float (Val v) = Num v"
| "to_float PlusInf = PosInf"
| "to_float MinusInf = NegInf"

definition overflow_at :: real where
  "overflow_at = 2 ^ 1024 - 2 ^ 970"

definition underflow_at :: real where
  "underflow_at = 1 / 2 ^ 1075"

text \<open>A finite result with overflow.\<close>

definition ovf :: "real \<Rightarrow> float64" where
  "ovf r = (if overflow_at \<le> r then PosInf else if r \<le> - overflow_at then NegInf else Num r)"

text \<open>A finite product or quotient: underflow to zero, and overflow.\<close>

definition rng :: "real \<Rightarrow> float64" where
  "rng r = (if \<bar>r\<bar> \<le> underflow_at then Num 0 else ovf r)"

text \<open>IEEE arithmetic on the special values.\<close>

fun fneg :: "float64 \<Rightarrow> float64" where
  "fneg NaN = NaN"
| "fneg NegInf = PosInf"
| "fneg (Num a) = Num (- a)"
| "fneg PosInf = NegInf"

fun fadd :: "float64 \<Rightarrow> float64 \<Rightarrow> float64" where
  "fadd NaN _ = NaN"
| "fadd _ NaN = NaN"
| "fadd (Num a) (Num b) = ovf (a + b)"
| "fadd PosInf NegInf = NaN"
| "fadd NegInf PosInf = NaN"
| "fadd PosInf _ = PosInf"
| "fadd _ PosInf = PosInf"
| "fadd NegInf _ = NegInf"
| "fadd _ NegInf = NegInf"

definition fsub :: "float64 \<Rightarrow> float64 \<Rightarrow> float64" where
  "fsub a b = fadd a (fneg b)"

text \<open>The sign of a non-NaN value: -1, 0 or 1.\<close>

fun fsgn :: "float64 \<Rightarrow> int" where
  "fsgn NaN = 0"
| "fsgn NegInf = - 1"
| "fsgn (Num a) = (if a < 0 then - 1 else if a = 0 then 0 else 1)"
| "fsgn PosInf = 1"

fun fmul :: "float64 \<Rightarrow> float64 \<Rightarrow> float64" where
  "fmul NaN _ = NaN"
| "fmul _ NaN = NaN"
| "fmul (Num a) (Num b) = rng (a * b)"
| "fmul a b =
     (if fsgn a * fsgn b = 0 then NaN else if fsgn a * fsgn b < 0 then NegInf else PosInf)"

text \<open>Division by a count: the divisor is a positive integer.\<close>

fun fdiv_count :: "float64 \<Rightarrow> nat \<Rightarrow> float64" where
  "fdiv_count (Num a) n = rng (a / real n)"
| "fdiv_count v n = v"

fun fsqrt :: "float64 \<Rightarrow> float64" where
  "fsqrt (Num a) = (if a < 0 then NaN else Num (sqrt a))"
| "fsqrt PosInf = PosInf"
| "fsqrt _ = NaN"

text \<open>\<open>np.log\<close>: \<open>-inf\<close> at 0 and NaN below 0, each with a warning, never an exception.\<close>

fun flog :: "float64 \<Rightarrow> float64" where
  "flog (Num a) = (if a < 0 then NaN else if a = 0 then NegInf else Num (ln a))"
| "flog PosInf = PosInf"
| "flog _ = NaN"

text \<open>IEEE comparisons: every comparison with NaN is false.\<close>

fun flt :: "float64 \<Rightarrow> float64 \<Rightarrow> bool" where
  "flt NaN _ = False"
| "flt _ NaN = False"
| "flt (Num a) (Num b) = (a < b)"
| "flt NegInf NegInf = False"
| "flt NegInf _ = True"
| "flt PosInf _ = False"
| "flt _ PosInf = True"
| "flt _ NegInf = False"

definition fgt :: "float64 \<Rightarrow> float64 \<Rightarrow> bool" where
  "fgt a b = flt b a"

definition fle :: "float64 \<Rightarrow> float64 \<Rightarrow> bool" where
  "fle a b = (a \<noteq> NaN \<and> b \<noteq> NaN \<and> \<not> flt b a)"

section \<open>Tables\<close>

text \<open>
  A DataFrame is an ordered collection of rows under a list of column names. A row
  carries its index label and its cells by column name; a name the row does not hold
  reads as a missing value, as pandas fills it. Rows are selected by position, so a
  row of a result is the very row of the input.
\<close>

record row =
  label :: nat
  cells :: "(string \<times> cell) list"

record dataframe =
  columns :: "string list"
  rows :: "row list"

datatype error = KeyError | ValueError

definition cell_of :: "row \<Rightarrow> string \<Rightarrow> cell" where
  "cell_of r c = (case map_of (cells r) c of None \<Rightarrow> NA | Some v \<Rightarrow> v)"

text \<open>\<open>data[feature]\<close>: the column as a Series of floats; KeyError for an unknown name.\<close>

definition getitem :: "dataframe \<Rightarrow> string \<Rightarrow> error + float64 list" where
  "getitem data feature =
     (if feature \<in> set (columns data)
      then Inr (map (\<lambda>r. to_float (cell_of r feature)) (rows data))
      else Inl KeyError)"

text \<open>\<open>data[mask]\<close>: the rows at the positions where the boolean Series is true.\<close>

definition getitem_mask :: "dataframe \<Rightarrow> bool list \<Rightarrow> dataframe" where
  "getitem_mask data msk = data\<lparr>rows := map fst (filter snd (zip (rows data) msk))\<rparr>"

text \<open>Elementwise operations on a Series.\<close>

definition series_add :: "float64 list \<Rightarrow> real \<Rightarrow> float64 list" where
  "series_add x c = map (\<lambda>v. fadd v (Num c)) x"

definition np_log :: "float64 list \<Rightarrow> float64 list" where
  "np_log x = map flog x"

definition series_lt :: "float64 list \<Rightarrow> float64 \<Rightarrow> bool list" where
  "series_lt x b = map (\<lambda>v. flt v b) x"

definition series_gt :: "float64 list \<Rightarrow> float64 \<Rightarrow> bool list" where
  "series_gt x b = map (\<lambda>v. fgt v b) x"

definition mask_or :: "bool list \<Rightarrow> bool list \<Rightarrow> bool list" where
  "mask_or m1 m2 = map2 (\<or>) m1 m2"

definition mask_and :: "bool list \<Rightarrow> bool list \<Rightarrow> bool list" where
  "mask_and m1 m2 = map2 (\<and>) m1 m2"

section \<open>Statistics of a Series\<close>

text \<open>pandas skips NaN in every reduction (\<open>skipna=True\<close>).\<close>

definition dropna :: "float64 list \<Rightarrow> float64 list" where
  "dropna x = filter (\<lambda>v. v \<noteq> NaN) x"

fun insort_f :: "float64 \<Rightarrow> float64 list \<Rightarrow> float64 list" where
  "insort_f v [] = [v]"
| "insort_f v (w # ws) = (if fle v w then v # w # ws else w # insort_f v ws)"

definition np_sort :: "float64 list \<Rightarrow> float64 list" where
  "np_sort vs = foldr insort_f vs []"

text \<open>
  numpy's linear interpolation between two neighbours of the sorted values:
  \<open>a + (b - a) * t\<close>, computed from the upper neighbour when \<open>t \<ge> 0.5\<close>.
\<close>

definition lerp :: "float64 \<Rightarrow> float64 \<Rightarrow> real \<Rightarrow> float64" where
  "lerp a b t =
     (let diff_b_a = fsub b a in
      if t \<ge> 0.5 then fsub b (fmul diff_b_a (Num (1 - t)))
      else fadd a (fmul diff_b_a (Num t)))"

text \<open>
  \<open>np.percentile\<close> with the default \<open>linear\<close> method on a non-empty array and
  \<open>0 \<le> q \<le> 1\<close>: the virtual index is \<open>q * (n - 1)\<close>, its floor and the next
  position (the last one at the top end) give the neighbours.
\<close>

definition percentile :: "float64 list \<Rightarrow> real \<Rightarrow> float64" where
  "percentile vs q =
     (let s = np_sort vs;
          n = length s;
          virtual_index = q * real (n - 1);
          previous_index = nat \<lfloor>virtual_index\<rfloor>;
          next_index = min (previous_index + 1) (n - 1);
          gamma = virtual_index - real previous_index
      in lerp (s ! previous_index) (s ! next_index) gamma)"

text \<open>pandas leaves the NaN values out; the result is NaN when nothing is left.\<close>

definition nanpercentile :: "float64 list \<Rightarrow> real \<Rightarrow> float64" where
  "nanpercentile x q = (let vs = dropna x in if vs = [] then NaN else percentile vs q)"

text \<open>\<open>Series.quantile(q)\<close>: ValueError unless \<open>0 \<le> q \<le> 1\<close>.\<close>

definition quantile :: "float64 list \<Rightarrow> real \<Rightarrow> error + float64" where
  "quantile x q =
     (if \<not> (0 \<le> q \<and> q \<le> 1) then Inl ValueError else Inr (nanpercentile x q))"

definition fsum :: "float64 list \<Rightarrow> float64" where
  "fsum vs = foldl fadd (Num 0) vs"

text \<open>\<open>Series.mean()\<close>: the sum of the non-NaN values over their count; NaN for none.\<close>

definition mean :: "float64 list \<Rightarrow> float64" where
  "mean x =
     (let vs = dropna x; count = length vs in
      if count = 0 then NaN else fdiv_count (fsum vs) count)"

text \<open>
  \<open>Series.std()\<close>: the sample standard deviation (\<open>ddof=1\<close>) of the non-NaN values;
  NaN when fewer than two values are left.
\<close>

definition std :: "float64 list \<Rightarrow> float64" where
  "std x =
     (let vs = dropna x; count = length vs in
      if count \<le> 1 then NaN
      else let avg = fdiv_count (fsum vs) count;
               sqr = fsum (map (\<lambda>v. fmul (fsub avg v) (fsub avg v)) vs)
           in fsqrt (fdiv_count sqr (count - 1)))"

section \<open>The three filters\<close>

text \<open>Lines 21-24 and 50-53: the optional transform \<open>np.log(data[feature] + 1)\<close>.\<close>

definition transform :: "bool \<Rightarrow> float64 list \<Rightarrow> float64 list" where
  "transform log_scale col = (if log_scale then np_log (series_add col 1) else col)"

text \<open>Lines 25-28: the quartiles, their range and the two bounds.\<close>

definition iqr_bounds :: "float64 list \<Rightarrow> real \<Rightarrow> real \<Rightarrow> error + float64 \<times> float64" where
  "iqr_bounds x left right =
     (case quantile x 0.25 of Inl e \<Rightarrow> Inl e | Inr quartile_1 \<Rightarrow>
       (case quantile x 0.75 of Inl e \<Rightarrow> Inl e | Inr quartile_3 \<Rightarrow>
          (let iqr = fsub quartile_3 quartile_1;
               lower_bound = fsub quartile_1 (fmul iqr (Num left));
               upper_bound = fadd quartile_3 (fmul iqr (Num right))
           in Inr (lower_bound, upper_bound))))"

text \<open>Lines 54-57: mean, standard deviation and the two bounds.\<close>

definition z_score_bounds :: "float64 list \<Rightarrow> real \<Rightarrow> real \<Rightarrow> float64 \<times> float64" where
  "z_score_bounds x left right =
     (let mu = mean x;
          sigma = std x;
          lower_bound = fsub mu (fmul (Num left) sigma);
          upper_bound = fadd mu (fmul (Num right) sigma)
      in (lower_bound, upper_bound))"

text \<open>Lines 95-96: the two quantiles.\<close>

definition quantile_bounds :: "float64 list \<Rightarrow> real \<Rightarrow> real \<Rightarrow> error + float64 \<times> float64" where
  "quantile_bounds x left right =
     (case quantile x left of Inl e \<Rightarrow> Inl e | Inr lower_bound \<Rightarrow>
       (case quantile x right of Inl e \<Rightarrow> Inl e | Inr upper_bound \<Rightarrow>
          Inr (lower_bound, upper_bound)))"

text \<open>
  Lines 29-31, 58-60 and 97-99, the same in the three functions: the rows outside the
  bounds and the rows between them.
\<close>

definition split_rows ::
  "dataframe \<Rightarrow> float64 list \<Rightarrow> float64 \<Rightarrow> float64 \<Rightarrow> dataframe \<times> dataframe" where
  "split_rows data x lower_bound upper_bound =
     (let outliers = getitem_mask data
            (mask_or (series_lt x lower_bound) (series_gt x upper_bound));
          cleaned = getitem_mask data
            (mask_and (series_gt x lower_bound) (series_lt x upper_bound))
      in (outliers, cleaned))"

definition find_outliers_iqr ::
  "dataframe \<Rightarrow> string \<Rightarrow> real \<Rightarrow> real \<Rightarrow> bool \<Rightarrow> error + dataframe \<times> dataframe" where
  "find_outliers_iqr data feature left right log_scale =
     (case getitem data feature of Inl e \<Rightarrow> Inl e | Inr col \<Rightarrow>
        (let x = transform log_scale col in
         (case iqr_bounds x left right of Inl e \<Rightarrow> Inl e
          | Inr (lower_bound, upper_bound) \<Rightarrow>
              Inr (split_rows data x lower_bound upper_bound))))"

definition find_outliers_z_score ::
  "dataframe \<Rightarrow> string \<Rightarrow> real \<Rightarrow> real \<Rightarrow> bool \<Rightarrow> error + dataframe \<times> dataframe" where
  "find_outliers_z_score data feature left right log_scale =
     (case getitem data feature of Inl e \<Rightarrow> Inl e | Inr col \<Rightarrow>
        (let x = transform log_scale col;
             (lower_bound, upper_bound) = z_score_bounds x left right
         in Inr (split_rows data x lower_bound upper_bound)))"

definition find_outliers_quantile ::
  "dataframe \<Rightarrow> string \<Rightarrow> real \<Rightarrow> real \<Rightarrow> error + dataframe \<times> dataframe" where
  "find_outliers_quantile data feature left right =
     (case getitem data feature of Inl e \<Rightarrow> Inl e | Inr x \<Rightarrow>
        (case quantile_bounds x left right of Inl e \<Rightarrow> Inl e
         | Inr (lower_bound, upper_bound) \<Rightarrow>
             Inr (split_rows data x lower_bound upper_bound)))"

text \<open>The transformed feature value of a row, as the comparisons see it.\<close>

definition xcell :: "bool \<Rightarrow> cell \<Rightarrow> float64" where
  "xcell log_scale c =
     (let v = to_float c in if log_scale then flog (fadd v (Num 1)) else v)"

definition xval :: "bool \<Rightarrow> string \<Rightarrow> row \<Rightarrow> float64" where
  "xval log_scale feature r = xcell log_scale (cell_of r feature)"

definition xcol :: "bool \<Rightarrow> string \<Rightarrow> dataframe \<Rightarrow> float64 list" where
  "xcol log_scale feature data = map (xval log_scale feature) (rows data)"

section \<open>Notions used by the statements\<close>

text \<open>The two row tests of lines 29-30, on a transformed value.\<close>

definition is_outlier :: "float64 \<Rightarrow> float64 \<Rightarrow> float64 \<Rightarrow> bool" where
  "is_outlier lower_bound upper_bound v = (flt v lower_bound \<or> fgt v upper_bound)"

definition is_cleaned :: "float64 \<Rightarrow> float64 \<Rightarrow> float64 \<Rightarrow> bool" where
  "is_cleaned lower_bound upper_bound v = (fgt v lower_bound \<and> flt v upper_bound)"


text \<open>
  A column whose finite values are small enough for the difference of any two of them
  not to overflow, and a column without an infinite value.
\<close>

definition safe_max :: real where
  "safe_max = 2 ^ 1022"

fun moderate :: "float64 \<Rightarrow> bool" where
  "moderate (Num r) = (\<bar>r\<bar> \<le> safe_max)"
| "moderate _ = True"

definition moderate_col :: "float64 list \<Rightarrow> bool" where
  "moderate_col x = (\<forall>v \<in> set x. moderate v)"

definition finite_col :: "float64 list \<Rightarrow> bool" where
  "finite_col x = (\<forall>v \<in> set x. v \<noteq> PosInf \<and> v \<noteq> NegInf)"

text \<open>Example tables: one column \<open>c\<close>, rows given by label and cell.\<close>

definition table :: "string \<Rightarrow> (nat \<times> cell) list \<Rightarrow> dataframe" where
  "table c ivs = \<lparr>columns = [c], rows = map (\<lambda>(i, v). \<lparr>label = i, cells = [(c, v)]\<rparr>) ivs\<rparr>"

text \<open>The feature column 1, 2, 3, 4, 5, 6, 100 of the specification's scenario A.\<close>

definition scenario_a :: dataframe where
  "scenario_a = table ''price''
     [(0, Val 1), (1, Val 2), (2, Val 3), (3, Val 4), (4, Val 5), (5, Val 6), (6, Val 100)]"

definition three_rows :: dataframe where
  "three_rows = table ''v'' [(0, Val 0), (1, Val 1), (2, Val 2)]"

definition five_rows :: dataframe where
  "five_rows = table ''v'' [(0, Val 1), (1, Val 2), (2, Val 3), (3, Val 4), (4, Val 5)]"

text \<open>
  The three-way split of the rows by a transformed value \<open>x\<close> against two bounds: a
  row strictly outside the bounds is an outlier, a row strictly between them is
  cleaned, and a row on a bound is never cleaned; it is an outlier exactly when it lies
  strictly beyond the other bound, which bounds in order (\<open>lower_bound \<le> upper_bound\<close>)
  exclude.
\<close>

definition three_way ::
  "dataframe \<Rightarrow> (row \<Rightarrow> float64) \<Rightarrow> float64 \<Rightarrow> float64 \<Rightarrow> dataframe \<Rightarrow> dataframe \<Rightarrow> bool" where
  "three_way data x lower_bound upper_bound outliers cleaned =
     (\<forall>r \<in> set (rows data).
        (flt (x r) lower_bound \<or> fgt (x r) upper_bound \<longrightarrow> r \<in> set (rows outliers)) \<and>
        (fgt (x r) lower_bound \<and> flt (x r) upper_bound \<longrightarrow> r \<in> set (rows cleaned)) \<and>
        (x r = lower_bound \<or> x r = upper_bound \<longrightarrow>
           r \<notin> set (rows cleaned) \<and>
           (r \<in> set (rows outliers) \<longleftrightarrow> flt (x r) lower_bound \<or> fgt (x r) upper_bound) \<and>
           (fle lower_bound upper_bound \<longrightarrow> r \<notin> set (rows outliers))))"

text \<open>
  No row in both frames; with distinct index labels in the input, no label in both.
\<close>

definition disjoint_rows :: "dataframe \<Rightarrow> dataframe \<Rightarrow> dataframe \<Rightarrow> bool" where
  "disjoint_rows data outliers cleaned =
     (set (rows outliers) \<inter> set (rows cleaned) = {} \<and>
      (distinct (map label (rows data)) \<longrightarrow>
         set (map label (rows outliers)) \<inter> set (map label (rows cleaned)) = {}))"

text \<open>The frame with the input's columns and no row.\<close>

definition no_rows :: "dataframe \<Rightarrow> dataframe" where
  "no_rows data = data\<lparr>rows := []\<rparr>"

text \<open>The rows of the input that satisfy a test on their transformed feature value.\<close>

definition rows_where :: "dataframe \<Rightarrow> (row \<Rightarrow> float64) \<Rightarrow> (float64 \<Rightarrow> bool) \<Rightarrow> dataframe" where
  "rows_where data x P = data\<lparr>rows := filter (\<lambda>r. P (x r)) (rows data)\<rparr>"


text \<open>
  What a call returns when a bound is NaN: cleaned is empty, and the outliers are the
  rows strictly beyond the other bound; both frames are empty when both bounds are NaN.
\<close>

definition nan_bound_split ::
  "dataframe \<Rightarrow> (row \<Rightarrow> float64) \<Rightarrow> float64 \<Rightarrow> float64 \<Rightarrow> error + dataframe \<times> dataframe \<Rightarrow> bool" where
  "nan_bound_split data x lower_bound upper_bound res =
     ((lower_bound = NaN \<or> upper_bound = NaN \<longrightarrow>
         res = Inr (rows_where data x (is_outlier lower_bound upper_bound), no_rows data)) \<and>
      (lower_bound = NaN \<and> upper_bound = NaN \<longrightarrow>
         res = Inr (no_rows data, no_rows data)))"

text \<open>Example tables for the degenerate cases.\<close>

definition log_edge_rows :: dataframe where
  "log_edge_rows = table ''v'' [(0, Val (- 1)), (1, Val 0), (2, Val 0)]"

definition single_row :: dataframe where
  "single_row = table ''v'' [(0, Val 7)]"

definition missing_rows :: dataframe where
  "missing_rows = table ''v'' [(0, NA), (1, NA)]"

definition flat_rows :: dataframe where
  "flat_rows = table ''v'' [(0, Val 5), (1, NA), (2, Val 5), (3, Val 5)]"



text \<open>A result frame holds the input's columns and a selection of its rows, in order.\<close>

definition kept_from :: "dataframe \<Rightarrow> dataframe \<Rightarrow> bool" where
  "kept_from data out = (columns out = columns data \<and> subseq (rows out) (rows data))"

text \<open>
  Example tables at the edges of the float64 range: two values whose squared
  deviations from their mean underflow, a column with an infinite value, and two values
  whose difference overflows.
\<close>

definition tiny :: real where
  "tiny = 1 / 2 ^ 600"

definition tiny_rows :: dataframe where
  "tiny_rows = table ''v'' [(0, Val 0), (1, Val tiny)]"


definition huge :: real where
  "huge = 2 ^ 1023"

definition huge_rows :: dataframe where
  "huge_rows = table ''v'' [(0, Val (- huge)), (1, Val huge)]"

section \<open>Interpolation on the real numbers\<close>

text \<open>
  Between two numbers within \<open>\<plusminus>2^1022\<close> no step of \<open>lerp\<close> overflows; the result is
  then the real number below, where a product of magnitude at most \<open>2^-1075\<close> counts as 0.
\<close>

definition flush :: "real \<Rightarrow> real" where
  "flush r = (if \<bar>r\<bar> \<le> underflow_at then 0 else r)"

definition lerp_real :: "real \<Rightarrow> real \<Rightarrow> real \<Rightarrow> real" where
  "lerp_real x y t =
     (if t \<ge> 0.5 then y - flush ((y - x) * (1 - t)) else x + flush ((y - x) * t))"

section \<open>Selecting rows\<close>

lemma select_by_map: "map fst (filter snd (zip rs (map g rs))) = filter g rs"
  by (induction rs) auto

lemma map2_or: "map2 (\<or>) (map P xs) (map Q xs) = map (\<lambda>v. P v \<or> Q v) xs"
  by (induction xs) auto

lemma map2_and: "map2 (\<and>) (map P xs) (map Q xs) = map (\<lambda>v. P v \<and> Q v) xs"
  by (induction xs) auto

lemma split_rows_xcol:
  "split_rows data (xcol ls f data) lb ub =
     (data\<lparr>rows := filter (\<lambda>r. is_outlier lb ub (xval ls f r)) (rows data)\<rparr>,
      data\<lparr>rows := filter (\<lambda>r. is_cleaned lb ub (xval ls f r)) (rows data)\<rparr>)"
proof -
  have o: "mask_or (series_lt (xcol ls f data) lb) (series_gt (xcol ls f data) ub)
      = map (\<lambda>r. is_outlier lb ub (xval ls f r)) (rows data)"
    by (simp add: mask_or_def series_lt_def series_gt_def xcol_def map2_or is_outlier_def o_def)
  have c: "mask_and (series_gt (xcol ls f data) lb) (series_lt (xcol ls f data) ub)
      = map (\<lambda>r. is_cleaned lb ub (xval ls f r)) (rows data)"
    by (simp add: mask_and_def series_lt_def series_gt_def xcol_def map2_and is_cleaned_def o_def)
  show ?thesis
    unfolding split_rows_def Let_def o c getitem_mask_def select_by_map ..
qed

lemma transform_getitem:
  "getitem data f = Inr col \<Longrightarrow> transform ls col = xcol ls f data"
  by (auto simp: getitem_def transform_def xcol_def xval_def xcell_def np_log_def
           series_add_def split: if_splits)

lemma getitem_cases:
  "getitem data f = (if f \<in> set (columns data) then Inr (xcol False f data) else Inl KeyError)"
  by (simp add: getitem_def xcol_def xval_def xcell_def)

lemma quantile_in_range: "0 \<le> q \<Longrightarrow> q \<le> 1 \<Longrightarrow> quantile x q = Inr (nanpercentile x q)"
  by (simp add: quantile_def)

lemma iqr_bounds_eq:
  "iqr_bounds x l r =
     Inr (fsub (nanpercentile x 0.25)
            (fmul (fsub (nanpercentile x 0.75) (nanpercentile x 0.25)) (Num l)),
          fadd (nanpercentile x 0.75)
            (fmul (fsub (nanpercentile x 0.75) (nanpercentile x 0.25)) (Num r)))"
proof -
  have q1: "quantile x 0.25 = Inr (nanpercentile x 0.25)" by (rule quantile_in_range) simp_all
  have q3: "quantile x 0.75 = Inr (nanpercentile x 0.75)" by (rule quantile_in_range) simp_all
  show ?thesis unfolding iqr_bounds_def q1 q3 by (simp add: Let_def)
qed

lemma find_outliers_iqr_eq:
  "find_outliers_iqr data f l r ls =
     (if f \<in> set (columns data)
      then (case iqr_bounds (xcol ls f data) l r of Inl e \<Rightarrow> Inl e
            | Inr (lb, ub) \<Rightarrow> Inr (split_rows data (xcol ls f data) lb ub))
      else Inl KeyError)"
proof (cases "f \<in> set (columns data)")
  case True
  then obtain col where g: "getitem data f = Inr col" by (simp add: getitem_def)
  show ?thesis using True
    by (simp add: find_outliers_iqr_def g transform_getitem[OF g] Let_def)
next
  case False
  then show ?thesis by (simp add: find_outliers_iqr_def getitem_def)
qed

lemma find_outliers_z_score_eq:
  "find_outliers_z_score data f l r ls =
     (if f \<in> set (columns data)
      then (case z_score_bounds (xcol ls f data) l r of
             (lb, ub) \<Rightarrow> Inr (split_rows data (xcol ls f data) lb ub))
      else Inl KeyError)"
proof (cases "f \<in> set (columns data)")
  case True
  then obtain col where g: "getitem data f = Inr col" by (simp add: getitem_def)
  show ?thesis using True
    by (simp add: find_outliers_z_score_def g transform_getitem[OF g] Let_def)
next
  case False
  then show ?thesis by (simp add: find_outliers_z_score_def getitem_def)
qed

lemma find_outliers_quantile_eq:
  "find_outliers_quantile data f l r =
     (if f \<in> set (columns data)
      then (case quantile_bounds (xcol False f data) l r of Inl e \<Rightarrow> Inl e
            | Inr (lb, ub) \<Rightarrow> Inr (split_rows data (xcol False f data) lb ub))
      else Inl KeyError)"
  by (simp add: find_outliers_quantile_def getitem_cases)

section \<open>Order, sorting and interpolation\<close>

lemma fle_refl: "a \<noteq> NaN \<Longrightarrow> fle a a"
  by (cases a) (auto simp: fle_def)

lemma fle_trans: "fle a b \<Longrightarrow> fle b c \<Longrightarrow> fle a c"
  by (cases a; cases b; cases c) (auto simp: fle_def)

lemma fle_total: "a \<noteq> NaN \<Longrightarrow> b \<noteq> NaN \<Longrightarrow> fle a b \<or> fle b a"
  by (cases a; cases b) (auto simp: fle_def)

lemma set_insort_f: "set (insort_f v ws) = insert v (set ws)"
  by (induction ws) auto

lemma length_insort_f: "length (insort_f v ws) = Suc (length ws)"
  by (induction ws) auto

lemma sorted_insort_f:
  "v \<noteq> NaN \<Longrightarrow> NaN \<notin> set ws \<Longrightarrow> sorted_wrt fle ws \<Longrightarrow> sorted_wrt fle (insort_f v ws)"
proof (induction ws)
  case Nil
  then show ?case by simp
next
  case (Cons w ws)
  show ?case
  proof (cases "fle v w")
    case True
    then show ?thesis using Cons.prems by (auto intro: fle_trans)
  next
    case False
    then have "fle w v" using fle_total[of v w] Cons.prems by auto
    then show ?thesis using False Cons by (auto simp: set_insort_f)
  qed
qed

lemma set_np_sort: "set (np_sort vs) = set vs"
  by (induction vs) (auto simp: np_sort_def set_insort_f)

lemma length_np_sort: "length (np_sort vs) = length vs"
  by (induction vs) (auto simp: np_sort_def length_insort_f)

lemma sorted_np_sort: "NaN \<notin> set vs \<Longrightarrow> sorted_wrt fle (np_sort vs)"
proof (induction vs)
  case Nil
  then show ?case by (simp add: np_sort_def)
next
  case (Cons v vs)
  have "sorted_wrt fle (insort_f v (np_sort vs))"
    using Cons by (intro sorted_insort_f) (auto simp: set_np_sort)
  then show ?case by (simp add: np_sort_def)
qed

lemma sorted_nth_fle:
  assumes "sorted_wrt fle s" "NaN \<notin> set s" "i \<le> j" "j < length s"
  shows "fle (s ! i) (s ! j)"
proof (cases "i = j")
  case True
  then show ?thesis using assms by (auto intro!: fle_refl) (metis nth_mem)
next
  case False
  then show ?thesis using assms by (auto simp: sorted_wrt_iff_nth_less)
qed

section \<open>The float64 range\<close>

lemma underflow_pos: "0 < underflow_at"
  by (simp add: underflow_at_def)


lemma two_safe_max: "2 * safe_max < overflow_at"
proof -
  have "(2::real) ^ 970 < 2 ^ 1023" by (rule power_strict_increasing) simp_all
  moreover have "(2::real) ^ 1024 = 2 * 2 ^ 1023" by (simp flip: power_Suc)
  moreover have "(2::real) ^ 1023 = 2 * 2 ^ 1022" by (simp flip: power_Suc)
  ultimately show ?thesis by (simp add: safe_max_def overflow_at_def)
qed

lemma safe_max_ge_one: "1 \<le> safe_max"
  unfolding safe_max_def by (rule one_le_power) simp

lemma overflow_gt_one: "1 < overflow_at"
  using two_safe_max safe_max_ge_one by linarith

lemma ovf_Num: "- overflow_at < r \<Longrightarrow> r < overflow_at \<Longrightarrow> ovf r = Num r"
  by (simp add: ovf_def)

lemma ovf_not_NaN [simp]: "ovf r \<noteq> NaN"
  by (simp add: ovf_def)

lemma rng_not_NaN [simp]: "rng r \<noteq> NaN"
  by (simp add: rng_def)

lemma rng_zero [simp]: "rng 0 = Num 0"
  using underflow_pos by (simp add: rng_def)

lemma ovf_zero [simp]: "ovf 0 = Num 0"
  using overflow_gt_one by (simp add: ovf_def)



section \<open>Interpolation\<close>

lemma rng_flush: "\<bar>r\<bar> < overflow_at \<Longrightarrow> rng r = Num (flush r)"
  by (auto simp: rng_def ovf_def flush_def)

lemma flush_bounds: "0 \<le> r \<Longrightarrow> 0 \<le> flush r \<and> flush r \<le> r"
  by (simp add: flush_def)

lemma flush_mono: "r \<le> s \<Longrightarrow> flush r \<le> flush s"
  using underflow_pos by (auto simp: flush_def)

lemma lerp_real_between:
  assumes "x \<le> y" "0 \<le> t" "t \<le> 1"
  shows "x \<le> lerp_real x y t \<and> lerp_real x y t \<le> y"
proof -
  have 1: "0 \<le> (y - x) * t" "(y - x) * t \<le> y - x"
    using assms by (simp_all add: mult_left_le)
  have 2: "0 \<le> (y - x) * (1 - t)" "(y - x) * (1 - t) \<le> y - x"
    using assms by (simp_all add: mult_left_le)
  show ?thesis
    using flush_bounds[OF 1(1)] flush_bounds[OF 2(1)] 1 2 by (auto simp: lerp_real_def)
qed

lemma lerp_real_mono:
  assumes "x \<le> y" "0 \<le> t" "t \<le> t'" "t' \<le> 1"
  shows "lerp_real x y t \<le> lerp_real x y t'"
proof -
  have d: "0 \<le> y - x" using assms by simp
  have a: "(y - x) * t \<le> (y - x) * t'" using assms d by (simp add: mult_left_mono)
  have b: "(y - x) * (1 - t') \<le> (y - x) * (1 - t)" using assms d by (simp add: mult_left_mono)
  have p: "0 \<le> (y - x) * t" "0 \<le> (y - x) * (1 - t')" using assms d by simp_all
  consider "t' < 0.5" | "0.5 \<le> t" | "t < 0.5" "0.5 \<le> t'" using assms by linarith
  then show ?thesis
  proof cases
    case 1
    then show ?thesis using flush_mono[OF a] assms by (simp add: lerp_real_def)
  next
    case 2
    then show ?thesis using flush_mono[OF b] assms by (simp add: lerp_real_def)
  next
    case 3
    have "x + flush ((y - x) * t) \<le> x + (y - x) * t" using flush_bounds[OF p(1)] by simp
    also have "\<dots> \<le> x + (y - x) * t'" using a by simp
    also have "\<dots> = y - (y - x) * (1 - t')" by (simp add: algebra_simps)
    also have "\<dots> \<le> y - flush ((y - x) * (1 - t'))" using flush_bounds[OF p(2)] by simp
    finally show ?thesis using 3 by (simp add: lerp_real_def)
  qed
qed

lemma lerp_Num:
  assumes "\<bar>x\<bar> \<le> safe_max" "\<bar>y\<bar> \<le> safe_max" "x \<le> y" "0 \<le> t" "t \<le> 1"
  shows "lerp (Num x) (Num y) t = Num (lerp_real x y t)"
proof -
  have d: "0 \<le> y - x" "y - x < overflow_at" using assms two_safe_max by linarith+
  then have diff: "fsub (Num y) (Num x) = Num (y - x)"
    using overflow_gt_one by (simp add: fsub_def ovf_Num)
  have 1: "0 \<le> (y - x) * t" "(y - x) * t \<le> y - x"
    using assms by (simp_all add: mult_left_le)
  have 2: "0 \<le> (y - x) * (1 - t)" "(y - x) * (1 - t) \<le> y - x"
    using assms by (simp_all add: mult_left_le)
  have p1: "fmul (Num (y - x)) (Num t) = Num (flush ((y - x) * t))"
    using 1 d by (simp add: rng_flush)
  have p2: "fmul (Num (y - x)) (Num (1 - t)) = Num (flush ((y - x) * (1 - t)))"
    using 2 d by (simp add: rng_flush)
  have b: "x \<le> lerp_real x y t" "lerp_real x y t \<le> y"
    using lerp_real_between[OF assms(3-5)] by simp_all
  then have r: "- overflow_at < lerp_real x y t" "lerp_real x y t < overflow_at"
    using assms two_safe_max safe_max_ge_one by linarith+
  show ?thesis
  proof (cases "t \<ge> 0.5")
    case True
    then have "lerp (Num x) (Num y) t = ovf (y - flush ((y - x) * (1 - t)))"
      unfolding lerp_def Let_def diff p2 by (simp add: fsub_def)
    then show ?thesis using True r by (simp add: lerp_real_def ovf_Num)
  next
    case False
    then have "lerp (Num x) (Num y) t = ovf (x + flush ((y - x) * t))"
      unfolding lerp_def Let_def diff p1 by simp
    then show ?thesis using False r by (simp add: lerp_real_def ovf_Num)
  qed
qed

lemma lerp_between:
  assumes "fle a b" "moderate a" "moderate b" "0 \<le> t" "t \<le> 1" "lerp a b t \<noteq> NaN"
  shows "fle a (lerp a b t) \<and> fle (lerp a b t) b"
proof (cases a; cases b)
  fix x y assume ab: "a = Num x" "b = Num y"
  then have xy: "x \<le> y" using assms(1) by (simp add: fle_def)
  have m: "\<bar>x\<bar> \<le> safe_max" "\<bar>y\<bar> \<le> safe_max" using assms(2,3) ab by simp_all
  show ?thesis
    using lerp_real_between[OF xy assms(4,5)] ab
    by (simp add: lerp_Num[OF m xy assms(4,5)] fle_def)
qed (use assms in \<open>auto simp: lerp_def fsub_def fle_def Let_def split: if_splits\<close>)

lemma lerp_mono:
  assumes "fle a b" "moderate a" "moderate b" "0 \<le> t" "t \<le> t'" "t' \<le> 1"
    and "lerp a b t \<noteq> NaN" "lerp a b t' \<noteq> NaN"
  shows "fle (lerp a b t) (lerp a b t')"
proof (cases a; cases b)
  fix x y assume ab: "a = Num x" "b = Num y"
  then have xy: "x \<le> y" using assms(1) by (simp add: fle_def)
  have m: "\<bar>x\<bar> \<le> safe_max" "\<bar>y\<bar> \<le> safe_max" using assms(2,3) ab by simp_all
  have t: "0 \<le> t'" "t \<le> 1" using assms by simp_all
  show ?thesis
    using lerp_real_mono[OF xy assms(4-6)] ab
    by (simp add: lerp_Num[OF m xy assms(4) t(2)] lerp_Num[OF m xy t(1) assms(6)] fle_def)
qed (use assms in \<open>auto simp: lerp_def fsub_def fle_def Let_def split: if_splits\<close>)

lemma percentile_mono:
  assumes ne: "vs \<noteq> []" and nn: "NaN \<notin> set vs" and md: "moderate_col vs"
    and p0: "0 \<le> p" and pq: "p \<le> q" and q1: "q \<le> 1"
    and rp: "percentile vs p \<noteq> NaN" and rq: "percentile vs q \<noteq> NaN"
  shows "fle (percentile vs p) (percentile vs q)"
proof -
  define s where "s = np_sort vs"
  define n where "n = length s"
  define m where "m = real (n - 1)"
  define lo where "lo = (\<lambda>u. nat \<lfloor>u * m\<rfloor>)"
  define hi where "hi = (\<lambda>u. min (lo u + 1) (n - 1))"
  define g where "g = (\<lambda>u. u * m - real (lo u))"
  have n_pos: "0 < n" using ne by (simp add: n_def s_def length_np_sort)
  have srt: "sorted_wrt fle s" and sn: "NaN \<notin> set s"
    using nn by (simp_all add: s_def sorted_np_sort set_np_sort)
  have sm: "moderate (s ! i)" if "i < length s" for i
    using md that nth_mem[OF that] by (simp add: moderate_col_def s_def set_np_sort)
  have m0: "0 \<le> m" by (simp add: m_def)
  have perc: "percentile vs u = lerp (s ! lo u) (s ! hi u) (g u)" for u
    by (simp add: percentile_def Let_def s_def n_def m_def lo_def hi_def g_def)
  have pos0: "0 \<le> u * m" if "0 \<le> u" for u using that m0 by simp
  have posm: "u * m \<le> m" if "u \<le> 1" for u using mult_right_mono[OF that m0] by simp
  have lo_le: "lo u \<le> n - 1" if "0 \<le> u" "u \<le> 1" for u
  proof -
    have "\<lfloor>u * m\<rfloor> \<le> \<lfloor>m\<rfloor>" using posm[OF that(2)] by (rule floor_mono)
    also have "\<lfloor>m\<rfloor> = int (n - 1)" by (simp add: m_def)
    finally show ?thesis by (simp add: lo_def)
  qed
  have g0: "0 \<le> g u" and g1: "g u \<le> 1" if "0 \<le> u" for u
  proof -
    have "real (lo u) = of_int \<lfloor>u * m\<rfloor>" using pos0[OF that] by (simp add: lo_def)
    then show "0 \<le> g u" "g u \<le> 1" unfolding g_def by linarith+
  qed
  have hi_lt: "hi u < length s" for u using n_pos unfolding hi_def n_def by linarith
  have lo_hi: "lo u \<le> hi u" if "0 \<le> u" "u \<le> 1" for u
    using lo_le[OF that] by (simp add: hi_def)
  have lo_lt: "lo u < length s" if "0 \<le> u" "u \<le> 1" for u
    using lo_hi[OF that] hi_lt[of u] by linarith
  have ends: "fle (s ! lo u) (s ! hi u)" if "0 \<le> u" "u \<le> 1" for u
    using srt sn lo_hi[OF that] hi_lt by (rule sorted_nth_fle)
  have lo_mono: "lo p \<le> lo q"
  proof -
    have "p * m \<le> q * m" using pq m0 by (simp add: mult_right_mono)
    then show ?thesis unfolding lo_def by (intro nat_mono floor_mono)
  qed
  have q0: "0 \<le> q" and p1: "p \<le> 1" using p0 pq q1 by simp_all
  show ?thesis
  proof (cases "lo p = lo q")
    case True
    then have h: "hi p = hi q" by (simp add: hi_def)
    have gg: "g p \<le> g q" using True pq m0 by (simp add: g_def mult_right_mono)
    have "fle (lerp (s ! lo q) (s ! hi q) (g p)) (lerp (s ! lo q) (s ! hi q) (g q))"
      using ends[OF q0 q1] sm[OF lo_lt[OF q0 q1]] sm[OF hi_lt] g0[OF p0] gg g1[OF q0] rp rq
      by (intro lerp_mono) (simp_all add: perc True h)
    then show ?thesis by (simp add: perc True h)
  next
    case False
    then have lt: "lo p < lo q" using lo_mono by simp
    then have "hi p \<le> lo q" by (simp add: hi_def)
    moreover have "lo q < length s" using lo_le[OF q0 q1] n_pos unfolding n_def by linarith
    ultimately have mid: "fle (s ! hi p) (s ! lo q)"
      using srt sn by (intro sorted_nth_fle)
    have a: "fle (percentile vs p) (s ! hi p)"
      using lerp_between[OF ends[OF p0 p1] sm[OF lo_lt[OF p0 p1]] sm[OF hi_lt] g0[OF p0] g1[OF p0]]
        rp by (simp add: perc)
    have b: "fle (s ! lo q) (percentile vs q)"
      using lerp_between[OF ends[OF q0 q1] sm[OF lo_lt[OF q0 q1]] sm[OF hi_lt] g0[OF q0] g1[OF q0]]
        rq by (simp add: perc)
    show ?thesis using a mid b by (blast intro: fle_trans)
  qed
qed

section \<open>Spreads and bounds\<close>

lemma fsub_NaN [simp]: "fsub NaN b = NaN" "fsub a NaN = NaN"
  by (cases a; simp add: fsub_def)+







lemma flt_NaN_right [simp]: "\<not> flt v NaN"
  by (cases v) simp_all

lemma flt_NegInf_right [simp]: "\<not> flt v NegInf"
  by (cases v) simp_all

lemma flt_PosInf_left [simp]: "\<not> flt PosInf v"
  by (cases v) simp_all














section \<open>Worked examples\<close>

text \<open>Numbers of ordinary size are not touched by overflow or underflow.\<close>

lemma ovf_small: "\<bar>r\<bar> \<le> 1000 \<Longrightarrow> ovf r = Num r"
proof -
  have "(1000::real) < 2 ^ 10" by simp
  also have "(2::real) ^ 10 \<le> 2 ^ 1022" by (rule power_increasing) simp_all
  finally have "1000 < overflow_at" using two_safe_max by (simp add: safe_max_def)
  then show "\<bar>r\<bar> \<le> 1000 \<Longrightarrow> ovf r = Num r" by (intro ovf_Num) linarith+
qed

lemma rng_small: "1 / 1000 \<le> \<bar>r\<bar> \<Longrightarrow> \<bar>r\<bar> \<le> 1000 \<Longrightarrow> rng r = Num r"
proof -
  have "(1000::real) < 2 ^ 10" by simp
  also have "(2::real) ^ 10 \<le> 2 ^ 1075" by (rule power_increasing) simp_all
  finally have "underflow_at < 1 / 1000"
    unfolding underflow_at_def by (simp add: field_simps)
  then show "1 / 1000 \<le> \<bar>r\<bar> \<Longrightarrow> \<bar>r\<bar> \<le> 1000 \<Longrightarrow> rng r = Num r"
    by (simp add: rng_def ovf_small)
qed

lemmas stat_defs = ovf_small rng_small iqr_bounds_def z_score_bounds_def quantile_bounds_def
  quantile_def nanpercentile_def dropna_def percentile_def np_sort_def lerp_def fsub_def
  fle_def fgt_def mean_def std_def fsum_def Let_def

lemma xval_table_row: "xval ls c \<lparr>label = i, cells = [(c, v)]\<rparr> = xcell ls v"
  by (simp add: xval_def cell_of_def)

lemma xcol_table: "xcol ls c (table c ivs) = map (\<lambda>(i, v). xcell ls v) ivs"
  by (induction ivs) (auto simp: xcol_def table_def xval_table_row)

lemma filter_table_rows:
  "filter (\<lambda>r. P (xval ls c r)) (rows (table c ivs)) =
     rows (table c (filter (\<lambda>(i, v). P (xcell ls v)) ivs))"
  by (induction ivs) (auto simp: table_def xval_table_row)

lemma split_rows_table:
  "split_rows (table c ivs) (xcol ls c (table c ivs)) lb ub =
    (table c (filter (\<lambda>(i, v). is_outlier lb ub (xcell ls v)) ivs),
     table c (filter (\<lambda>(i, v). is_cleaned lb ub (xcell ls v)) ivs))"
  unfolding split_rows_xcol filter_table_rows by (simp add: table_def)

lemma iqr_table:
  "find_outliers_iqr (table c ivs) c l r ls =
     (case iqr_bounds (xcol ls c (table c ivs)) l r of Inl e \<Rightarrow> Inl e
      | Inr (lb, ub) \<Rightarrow> Inr (split_rows (table c ivs) (xcol ls c (table c ivs)) lb ub))"
  by (simp add: find_outliers_iqr_eq) (simp add: table_def)

lemma z_score_table:
  "find_outliers_z_score (table c ivs) c l r ls =
     (case z_score_bounds (xcol ls c (table c ivs)) l r of
        (lb, ub) \<Rightarrow> Inr (split_rows (table c ivs) (xcol ls c (table c ivs)) lb ub))"
  by (simp add: find_outliers_z_score_eq) (simp add: table_def)

lemma quantile_table:
  "find_outliers_quantile (table c ivs) c l r =
     (case quantile_bounds (xcol False c (table c ivs)) l r of Inl e \<Rightarrow> Inl e
      | Inr (lb, ub) \<Rightarrow> Inr (split_rows (table c ivs) (xcol False c (table c ivs)) lb ub))"
  by (simp add: find_outliers_quantile_eq) (simp add: table_def)

lemmas row_tests = is_outlier_def is_cleaned_def fgt_def xcell_def ovf_small

lemma scenario_a_bounds:
  "iqr_bounds (xcol False ''price'' scenario_a) 1.5 1.5 = Inr (Num (- 2), Num 10)"
  unfolding scenario_a_def xcol_table by (simp add: stat_defs xcell_def)

lemma scenario_a_iqr:
  "find_outliers_iqr scenario_a ''price'' 1.5 1.5 False =
     Inr (table ''price'' [(6, Val 100)],
          table ''price''
            [(0, Val 1), (1, Val 2), (2, Val 3), (3, Val 4), (4, Val 5), (5, Val 6)])"
  unfolding scenario_a_def iqr_table scenario_a_bounds[unfolded scenario_a_def] split_rows_table
  by (simp add: row_tests)

lemma three_rows_bounds:
  "z_score_bounds (xcol False ''v'' three_rows) 0.5 0.5 = (Num 0.5, Num 1.5)"
  unfolding three_rows_def xcol_table by (simp add: stat_defs xcell_def)

lemma three_rows_z_score:
  "find_outliers_z_score three_rows ''v'' 0.5 0.5 False =
     Inr (table ''v'' [(0, Val 0), (2, Val 2)], table ''v'' [(1, Val 1)])"
  unfolding three_rows_def z_score_table three_rows_bounds[unfolded three_rows_def] split_rows_table
  by (simp add: row_tests)

lemma five_rows_bounds:
  "quantile_bounds (xcol False ''v'' five_rows) 0.25 0.75 = Inr (Num 2, Num 4)"
  unfolding five_rows_def xcol_table by (simp add: stat_defs xcell_def)

lemma five_rows_quantile:
  "find_outliers_quantile five_rows ''v'' 0.25 0.75 =
     Inr (table ''v'' [(0, Val 1), (4, Val 5)], table ''v'' [(2, Val 3)])"
  unfolding five_rows_def quantile_table five_rows_bounds[unfolded five_rows_def] split_rows_table
  by (simp add: row_tests)

section \<open>What a call returns\<close>

lemma split_rows_kept:
  "split_rows data (xcol ls f data) lb ub = (out, cl) \<Longrightarrow> kept_from data out \<and> kept_from data cl"
  by (auto simp: split_rows_xcol kept_from_def)

lemma iqr_result:
  assumes "find_outliers_iqr data f l r ls = Inr (out, cl)"
  shows "\<exists>lb ub. iqr_bounds (xcol ls f data) l r = Inr (lb, ub) \<and>
           split_rows data (xcol ls f data) lb ub = (out, cl)"
  using assms by (auto simp: find_outliers_iqr_eq split: if_splits sum.splits)

lemma z_score_result:
  assumes "find_outliers_z_score data f l r ls = Inr (out, cl)"
  shows "\<exists>lb ub. z_score_bounds (xcol ls f data) l r = (lb, ub) \<and>
           split_rows data (xcol ls f data) lb ub = (out, cl)"
  using assms by (auto simp: find_outliers_z_score_eq split: if_splits prod.splits)

lemma quantile_result:
  assumes "find_outliers_quantile data f l r = Inr (out, cl)"
  shows "\<exists>lb ub. quantile_bounds (xcol False f data) l r = Inr (lb, ub) \<and>
           split_rows data (xcol False f data) lb ub = (out, cl)"
  using assms by (auto simp: find_outliers_quantile_eq split: if_splits sum.splits)

section \<open>Facts used by the claims\<close>

text \<open>
  What each function returns in terms of its bounds, the row tests on a bound and on
  NaN, the monotonicity of the interpolated quantile, and the evaluation of the
  functions on the example tables.
\<close>

lemma not_outlier_and_cleaned: "\<not> (is_outlier lb ub v \<and> is_cleaned lb ub v)"
  by (cases v; cases lb; cases ub) (auto simp: is_outlier_def is_cleaned_def fgt_def)

lemma on_bound_tests:
  "v = lb \<or> v = ub \<Longrightarrow> \<not> is_cleaned lb ub v"
  "v = lb \<or> v = ub \<Longrightarrow> fle lb ub \<Longrightarrow> \<not> is_outlier lb ub v"
  by (cases v; cases lb; cases ub; auto simp: is_outlier_def is_cleaned_def fgt_def fle_def)+

lemma split_rows_disjoint:
  assumes "split_rows data (xcol ls f data) lb ub = (out, cl)"
  shows "disjoint_rows data out cl"
proof -
  have o: "rows out = filter (\<lambda>r. is_outlier lb ub (xval ls f r)) (rows data)"
    and c: "rows cl = filter (\<lambda>r. is_cleaned lb ub (xval ls f r)) (rows data)"
    using assms by (auto simp: split_rows_xcol)
  have d: "set (rows out) \<inter> set (rows cl) = {}"
    unfolding o c using not_outlier_and_cleaned by auto
  have "set (map label (rows out)) \<inter> set (map label (rows cl)) = {}"
    if dist: "distinct (map label (rows data))"
  proof (rule ccontr)
    assume "set (map label (rows out)) \<inter> set (map label (rows cl)) \<noteq> {}"
    then obtain r1 r2 where r: "r1 \<in> set (rows out)" "r2 \<in> set (rows cl)" "label r1 = label r2"
      by auto
    have "r1 \<in> set (rows data)" "r2 \<in> set (rows data)" using r o c by auto
    then have "r1 = r2" using dist r(3) by (meson distinct_map inj_onD)
    then show False using d r by auto
  qed
  then show ?thesis using d by (simp add: disjoint_rows_def)
qed

lemma split_rows_three_way:
  assumes "split_rows data (xcol ls f data) lb ub = (out, cl)"
  shows "three_way data (xval ls f) lb ub out cl"
proof -
  have o: "rows out = filter (\<lambda>r. is_outlier lb ub (xval ls f r)) (rows data)"
    and c: "rows cl = filter (\<lambda>r. is_cleaned lb ub (xval ls f r)) (rows data)"
    using assms by (auto simp: split_rows_xcol)
  show ?thesis
    unfolding three_way_def o c
    using on_bound_tests[of _ lb ub] by (auto simp: is_outlier_def is_cleaned_def)
qed

lemma three_rows_bounds_1:
  "z_score_bounds (xcol False ''v'' three_rows) 1 1 = (Num 0, Num 2)"
  unfolding three_rows_def xcol_table by (simp add: stat_defs xcell_def)

lemma three_rows_z_score_1:
  "find_outliers_z_score three_rows ''v'' 1 1 False =
     Inr (table ''v'' [], table ''v'' [(1, Val 1)])"
  unfolding three_rows_def z_score_table three_rows_bounds_1[unfolded three_rows_def]
    split_rows_table
  by (simp add: row_tests)

lemma five_rows_bounds_inverted:
  "quantile_bounds (xcol False ''v'' five_rows) 0.75 0.25 = Inr (Num 4, Num 2)"
  unfolding five_rows_def xcol_table by (simp add: stat_defs xcell_def)

lemma five_rows_quantile_inverted:
  "find_outliers_quantile five_rows ''v'' 0.75 0.25 = Inr (five_rows, table ''v'' [])"
  unfolding five_rows_def quantile_table five_rows_bounds_inverted[unfolded five_rows_def]
    split_rows_table
  by (simp add: row_tests)

lemma split_rows_where:
  "split_rows data (xcol ls f data) lb ub =
     (rows_where data (xval ls f) (is_outlier lb ub), rows_where data (xval ls f) (is_cleaned lb ub))"
  by (simp add: split_rows_xcol rows_where_def)









lemma find_outliers_iqr_rows:
  assumes "feature \<in> set (columns data)"
    and "iqr_bounds (xcol log_scale feature data) left right = Inr (lb, ub)"
  shows "find_outliers_iqr data feature left right log_scale =
           Inr (rows_where data (xval log_scale feature) (is_outlier lb ub),
                rows_where data (xval log_scale feature) (is_cleaned lb ub))"
  using assms by (simp add: find_outliers_iqr_eq split_rows_where)

lemma find_outliers_z_score_rows:
  assumes "feature \<in> set (columns data)"
    and "z_score_bounds (xcol log_scale feature data) left right = (lb, ub)"
  shows "find_outliers_z_score data feature left right log_scale =
           Inr (rows_where data (xval log_scale feature) (is_outlier lb ub),
                rows_where data (xval log_scale feature) (is_cleaned lb ub))"
  using assms by (simp add: find_outliers_z_score_eq split_rows_where)

lemma find_outliers_quantile_rows:
  assumes "feature \<in> set (columns data)"
    and "quantile_bounds (xcol False feature data) left right = Inr (lb, ub)"
  shows "find_outliers_quantile data feature left right =
           Inr (rows_where data (xval False feature) (is_outlier lb ub),
                rows_where data (xval False feature) (is_cleaned lb ub))"
  using assms by (simp add: find_outliers_quantile_eq split_rows_where)







lemma NaN_notin_dropna: "NaN \<notin> set (dropna x)"
  by (simp add: dropna_def)

lemma not_cleaned_inverted: "fle ub lb \<Longrightarrow> \<not> is_cleaned lb ub v"
  by (cases v; cases lb; cases ub) (auto simp: is_cleaned_def fgt_def fle_def)

lemma not_cleaned_NaN: "lb = NaN \<or> ub = NaN \<Longrightarrow> \<not> is_cleaned lb ub v"
  by (auto simp: is_cleaned_def fgt_def)

lemma fadd_NaN_right [simp]: "fadd a NaN = NaN"
  by (cases a) simp_all

lemma fmul_NaN_right [simp]: "fmul a NaN = NaN"
  by (cases a) simp_all

lemma no_outlier_NaN_bounds: "\<not> is_outlier NaN NaN v"
  by (simp add: is_outlier_def fgt_def)

lemma rows_where_none: "(\<And>v. \<not> P v) \<Longrightarrow> rows_where data x P = no_rows data"
  by (simp add: rows_where_def no_rows_def)

lemma nan_bound_split_rows:
  assumes "res = Inr (rows_where data x (is_outlier lb ub), rows_where data x (is_cleaned lb ub))"
  shows "nan_bound_split data x lb ub res"
proof -
  have "rows_where data x (is_cleaned lb ub) = no_rows data" if "lb = NaN \<or> ub = NaN"
    using not_cleaned_NaN[OF that] by (rule rows_where_none)
  moreover have "rows_where data x (is_outlier lb ub) = no_rows data" if "lb = NaN \<and> ub = NaN"
    using that no_outlier_NaN_bounds by (intro rows_where_none) simp
  ultimately show ?thesis unfolding nan_bound_split_def assms by auto
qed

lemma iqr_bounds_empty: "dropna x = [] \<Longrightarrow> iqr_bounds x l r = Inr (NaN, NaN)"
  by (simp add: iqr_bounds_eq nanpercentile_def)

lemma z_score_bounds_few: "length (dropna x) \<le> 1 \<Longrightarrow> z_score_bounds x l r = (NaN, NaN)"
  by (simp add: z_score_bounds_def std_def Let_def)

lemma quantile_bounds_empty:
  "dropna x = [] \<Longrightarrow> 0 \<le> l \<Longrightarrow> l \<le> 1 \<Longrightarrow> 0 \<le> r \<Longrightarrow> r \<le> 1 \<Longrightarrow>
     quantile_bounds x l r = Inr (NaN, NaN)"
  by (simp add: quantile_bounds_def quantile_def nanpercentile_def)

lemma log_edge_bounds:
  "iqr_bounds (xcol True ''v'' log_edge_rows) 0 (- 1) = Inr (NaN, NegInf)"
  unfolding log_edge_rows_def xcol_table by (simp add: stat_defs xcell_def)

lemma log_edge_iqr:
  "find_outliers_iqr log_edge_rows ''v'' 0 (- 1) True =
     Inr (table ''v'' [(1, Val 0), (2, Val 0)], table ''v'' [])"
  unfolding log_edge_rows_def iqr_table log_edge_bounds[unfolded log_edge_rows_def]
    split_rows_table
  by (simp add: row_tests)





lemma percentile_ends:
  assumes "vs \<noteq> []" "0 \<le> q" "q \<le> 1"
  shows "\<exists>i j t. i \<le> j \<and> j < length vs \<and> 0 \<le> t \<and> t \<le> 1 \<and>
           percentile vs q = lerp (np_sort vs ! i) (np_sort vs ! j) t"
proof -
  define n where "n = length (np_sort vs)"
  define i where "i = nat \<lfloor>q * real (n - 1)\<rfloor>"
  have n: "0 < n" "n = length vs" using assms(1) by (simp_all add: n_def length_np_sort)
  have p0: "0 \<le> q * real (n - 1)" using assms(2) by simp
  have "q * real (n - 1) \<le> real (n - 1)"
    using mult_right_mono[OF assms(3), of "real (n - 1)"] by simp
  then have "\<lfloor>q * real (n - 1)\<rfloor> \<le> \<lfloor>real (n - 1)\<rfloor>" by (rule floor_mono)
  then have i: "i \<le> n - 1" by (simp add: i_def)
  have j: "i \<le> min (i + 1) (n - 1)" "min (i + 1) (n - 1) < length vs" using i n by linarith+
  have "real i = of_int \<lfloor>q * real (n - 1)\<rfloor>" using p0 by (simp add: i_def)
  then have t: "0 \<le> q * real (n - 1) - real i" "q * real (n - 1) - real i \<le> 1" by linarith+
  have "percentile vs q = lerp (np_sort vs ! i) (np_sort vs ! min (i + 1) (n - 1))
      (q * real (n - 1) - real i)"
    by (simp add: percentile_def Let_def n_def i_def)
  then show ?thesis using j t by blast
qed

lemma percentile_finite:
  assumes "vs \<noteq> []" "0 \<le> q" "q \<le> 1" "\<forall>v \<in> set vs. \<exists>a. v = Num a" "moderate_col vs"
  shows "\<exists>a. percentile vs q = Num a"
proof -
  obtain i j t where ij: "i \<le> j" "j < length vs" and t: "0 \<le> t" "t \<le> 1"
    and p: "percentile vs q = lerp (np_sort vs ! i) (np_sort vs ! j) t"
    using percentile_ends[OF assms(1-3)] by blast
  have nn: "NaN \<notin> set vs" using assms(4) by auto
  have l: "j < length (np_sort vs)" using ij by (simp add: length_np_sort)
  have o: "fle (np_sort vs ! i) (np_sort vs ! j)"
    using sorted_np_sort[OF nn] _ ij(1) l by (rule sorted_nth_fle) (simp add: set_np_sort nn)
  have mem: "np_sort vs ! i \<in> set vs" "np_sort vs ! j \<in> set vs"
    using ij l by (metis le_less_trans nth_mem set_np_sort)+
  then obtain a b where ab: "np_sort vs ! i = Num a" "np_sort vs ! j = Num b"
    using assms(4) by blast
  have m: "\<bar>a\<bar> \<le> safe_max" "\<bar>b\<bar> \<le> safe_max"
    using assms(5) mem ab by (auto simp: moderate_col_def)
  have "a \<le> b" using o ab by (simp add: fle_def)
  from lerp_Num[OF m this t] show ?thesis by (simp add: p ab)
qed

lemma moderate_dropna: "moderate_col x \<Longrightarrow> moderate_col (dropna x)"
  by (simp add: moderate_col_def dropna_def)

lemma finite_dropna: "finite_col x \<Longrightarrow> \<forall>v \<in> set (dropna x). \<exists>a. v = Num a"
proof
  fix v assume "finite_col x" "v \<in> set (dropna x)"
  then show "\<exists>a. v = Num a" by (cases v) (auto simp: finite_col_def dropna_def)
qed

lemma nanpercentile_mono:
  assumes "moderate_col x" "0 \<le> p" "p \<le> q" "q \<le> 1"
    and "nanpercentile x p \<noteq> NaN" "nanpercentile x q \<noteq> NaN"
  shows "fle (nanpercentile x p) (nanpercentile x q)"
proof (cases "dropna x = []")
  case True
  then show ?thesis using assms by (simp add: nanpercentile_def)
next
  case False
  then show ?thesis
    using assms percentile_mono[OF False NaN_notin_dropna moderate_dropna[OF assms(1)] assms(2-4)]
    by (simp add: nanpercentile_def)
qed

lemma nanpercentile_finite:
  assumes "finite_col x" "moderate_col x" "0 \<le> q" "q \<le> 1"
  shows "if dropna x = [] then nanpercentile x q = NaN else (\<exists>a. nanpercentile x q = Num a)"
  using percentile_finite[OF _ assms(3,4) finite_dropna[OF assms(1)] moderate_dropna[OF assms(2)]]
  by (simp add: nanpercentile_def)


lemma rng_Num_range: "rng r = Num a \<Longrightarrow> \<bar>a\<bar> < overflow_at"
  using overflow_gt_one by (auto simp: rng_def ovf_def split: if_splits)

lemma mean_range: "mean x = Num a \<Longrightarrow> \<bar>a\<bar> < overflow_at"
  by (cases "fsum (dropna x)")
     (auto simp: mean_def Let_def rng_Num_range split: if_splits)

lemma z_score_bounds_zero:
  assumes "std x = Num 0"
  shows "z_score_bounds x l r = (mean x, mean x)"
proof -
  have "fsub (mean x) (Num 0) = mean x \<and> fadd (mean x) (Num 0) = mean x"
  proof (cases "mean x")
    case (Num a)
    from mean_range[OF this] have "ovf a = Num a" by (intro ovf_Num) linarith+
    then show ?thesis by (simp add: Num fsub_def)
  qed (simp_all add: fsub_def)
  then show ?thesis using assms by (simp add: z_score_bounds_def Let_def)
qed



section \<open>Examples at the edges of the range\<close>

lemma moderate_small: "\<bar>r\<bar> \<le> 1000 \<Longrightarrow> moderate (Num r)"
proof -
  have "(1000::real) < 2 ^ 10" by simp
  also have "(2::real) ^ 10 \<le> 2 ^ 1022" by (rule power_increasing) simp_all
  finally show "\<bar>r\<bar> \<le> 1000 \<Longrightarrow> moderate (Num r)" by (simp add: safe_max_def)
qed

lemma tiny_facts:
  "0 < tiny" "tiny \<le> 1" "underflow_at < tiny / 2" "(tiny / 2) * (tiny / 2) \<le> underflow_at"
proof -
  show "0 < tiny" "tiny \<le> 1" by (simp_all add: tiny_def)
  have "(2::real) ^ 601 < 2 ^ 1075" by (rule power_strict_increasing) simp_all
  then have "1 / (2::real) ^ 1075 < 1 / 2 ^ 601" by (simp add: field_simps del: power_strict_increasing_iff)
  moreover have h: "tiny / 2 = 1 / 2 ^ 601" by (simp add: tiny_def)
  ultimately show "underflow_at < tiny / 2" by (simp only: underflow_at_def)
  have "(2::real) ^ 1075 \<le> 2 ^ 1202" by (rule power_increasing) simp_all
  then have "1 / (2::real) ^ 1202 \<le> 1 / 2 ^ 1075" by (simp add: field_simps del: power_increasing_iff)
  moreover have "(tiny / 2) * (tiny / 2) = 1 / 2 ^ 1202"
    unfolding h by (simp add: power_add[symmetric] del: power_strict_increasing_iff)
  ultimately show "(tiny / 2) * (tiny / 2) \<le> underflow_at" by (simp only: underflow_at_def)
qed

lemma two_values_underflow:
  assumes "0 < e" "e \<le> 1" "underflow_at < e / 2" "(e / 2) * (e / 2) \<le> underflow_at"
  shows "mean [Num 0, Num e] = Num (e / 2)" and "std [Num 0, Num e] = Num 0"
proof -
  have o: "ovf e = Num e" "ovf (e / 2) = Num (e / 2)" "ovf (- (e / 2)) = Num (- (e / 2))"
    using assms(1,2) by (intro ovf_small; simp)+
  have a: "rng (e / 2) = Num (e / 2)"
    using assms(1,3) by (simp add: rng_def o)
  have r: "rng ((e / 2) * (e / 2)) = Num 0"
    using assms(1,4) by (simp add: rng_def)
  have s: "e / 2 - e = - (e / 2)" by simp
  show "mean [Num 0, Num e] = Num (e / 2)"
    by (simp add: mean_def dropna_def fsum_def Let_def o a)
  have avg: "fdiv_count (ovf e) (Suc (Suc 0)) = Num (e / 2)"
    by (simp add: o a)
  have d: "fsub (Num (e / 2)) (Num 0) = Num (e / 2)" "fsub (Num (e / 2)) (Num e) = Num (- (e / 2))"
    using o by (simp_all add: fsub_def s)
  have m: "fmul (Num (e / 2)) (Num (e / 2)) = Num 0" "fmul (Num (- (e / 2))) (Num (- (e / 2))) = Num 0"
    using r by simp_all
  have "length (dropna [Num 0, Num e]) = 2" "dropna [Num 0, Num e] = [Num 0, Num e]"
    by (simp_all add: dropna_def)
  then show "std [Num 0, Num e] = Num 0"
    unfolding std_def Let_def by (simp add: avg d m fsum_def del: fmul.simps)
qed

lemma tiny_rows_xcol: "xcol False ''v'' tiny_rows = [Num 0, Num tiny]"
  unfolding tiny_rows_def xcol_table by (simp add: xcell_def)

lemma tiny_rows_std: "std (xcol False ''v'' tiny_rows) = Num 0"
  unfolding tiny_rows_xcol by (rule two_values_underflow[OF tiny_facts])

lemma tiny_rows_mean: "mean (xcol False ''v'' tiny_rows) = Num (tiny / 2)"
  unfolding tiny_rows_xcol by (rule two_values_underflow[OF tiny_facts])

lemma huge_facts: "0 < huge" "huge < overflow_at" "overflow_at \<le> 2 * huge"
proof -
  show "0 < huge" by (simp add: huge_def)
  have e: "(2::real) * 2 ^ 1023 = 2 ^ 1024" by simp
  have "(2::real) ^ 970 < 2 ^ 1023" by (rule power_strict_increasing) simp_all
  then show "huge < overflow_at" unfolding overflow_at_def huge_def e[symmetric] by linarith
  have "(0::real) \<le> 2 ^ 970" by simp
  then show "overflow_at \<le> 2 * huge" unfolding overflow_at_def huge_def e by linarith
qed

lemma two_values_overflow:
  assumes "0 < h" "h < overflow_at" "overflow_at \<le> 2 * h"
  shows "nanpercentile [Num (- h), Num h] 0.25 = PosInf"
    and "nanpercentile [Num (- h), Num h] 0.75 = NegInf"
    and "nanpercentile [Num (- h), Num h] 1 = Num h"
proof -
  have d: "fsub (Num h) (Num (- h)) = PosInf"
    using assms by (simp add: fsub_def ovf_def)
  have z: "fsub (Num h) (Num h) = Num 0" by (simp add: fsub_def)
  have o: "ovf h = Num h" using assms by (intro ovf_Num) linarith+
  have s: "np_sort [Num (- h), Num h] = [Num (- h), Num h]"
    using assms(1) by (simp add: np_sort_def fle_def)
  have n: "dropna [Num (- h), Num h] = [Num (- h), Num h]" by (simp add: dropna_def)
  show "nanpercentile [Num (- h), Num h] 0.25 = PosInf"
    unfolding nanpercentile_def percentile_def Let_def n s
    by (simp add: lerp_def Let_def d)
  show "nanpercentile [Num (- h), Num h] 0.75 = NegInf"
    unfolding nanpercentile_def percentile_def Let_def n s
    by (simp add: lerp_def Let_def d) (simp add: fsub_def)
  show "nanpercentile [Num (- h), Num h] 1 = Num h"
    unfolding nanpercentile_def percentile_def Let_def n s
    by (simp add: lerp_def Let_def z o)
qed

lemma huge_rows_xcol: "xcol ls ''v'' huge_rows = [xcell ls (Val (- huge)), xcell ls (Val huge)]"
  unfolding huge_rows_def xcol_table by simp

lemmas huge_q = two_values_overflow[OF huge_facts, simplified]

lemma huge_rows_quantile_bounds:
  "quantile_bounds (xcol False ''v'' huge_rows) 0.75 1 = Inr (NegInf, Num huge)"
  "quantile_bounds (xcol False ''v'' huge_rows) 0.25 1 = Inr (PosInf, Num huge)"
  "quantile_bounds (xcol False ''v'' huge_rows) 0.75 0.25 = Inr (NegInf, PosInf)"
  unfolding huge_rows_xcol by (simp_all add: quantile_bounds_def quantile_def xcell_def huge_q)


lemma huge_rows_quantile:
  "find_outliers_quantile huge_rows ''v'' 0.75 1 =
     Inr (table ''v'' [], table ''v'' [(0, Val (- huge))])"
  "find_outliers_quantile huge_rows ''v'' 0.25 1 = Inr (huge_rows, table ''v'' [])"
  "find_outliers_quantile huge_rows ''v'' 0.75 0.25 = Inr (table ''v'' [], huge_rows)"
proof -
  have h: "\<not> huge < - huge" "- huge < huge" "\<not> huge < 0" "huge \<noteq> 0" "0 < huge"
    using huge_facts(1) by linarith+
  show "find_outliers_quantile huge_rows ''v'' 0.75 1 =
     Inr (table ''v'' [], table ''v'' [(0, Val (- huge))])"
    "find_outliers_quantile huge_rows ''v'' 0.25 1 = Inr (huge_rows, table ''v'' [])"
    "find_outliers_quantile huge_rows ''v'' 0.75 0.25 = Inr (table ''v'' [], huge_rows)"
    unfolding huge_rows_def quantile_table huge_rows_quantile_bounds[unfolded huge_rows_def]
      split_rows_table
    by (simp_all add: is_outlier_def is_cleaned_def fgt_def xcell_def h)
qed




lemma tiny_rows_bounds:
  "z_score_bounds (xcol False ''v'' tiny_rows) 3 3 = (Num (tiny / 2), Num (tiny / 2))"
  using z_score_bounds_zero[OF tiny_rows_std, of 3 3] by (simp add: tiny_rows_mean)

lemma tiny_rows_z_score:
  "find_outliers_z_score tiny_rows ''v'' 3 3 False = Inr (tiny_rows, table ''v'' [])"
  using tiny_facts(1)
  unfolding tiny_rows_def z_score_table tiny_rows_bounds[unfolded tiny_rows_def] split_rows_table
  by (simp add: is_outlier_def is_cleaned_def fgt_def xcell_def)

section \<open>The claims\<close>

text \<open>
  C1, as amended. Each of the three functions splits the rows three ways by the
  (possibly log-transformed) feature value against the computed bounds: strictly outside
  the bounds means outlier, strictly between them means cleaned, and a row on a bound is
  never cleaned; it is an outlier only when it lies strictly beyond the other bound, so
  with \<open>lower_bound \<le> upper_bound\<close> it is in neither frame.
\<close>

theorem rows_split_three_ways:
  "(find_outliers_iqr data feature left right log_scale = Inr (o1, c1) \<and>
    iqr_bounds (xcol log_scale feature data) left right = Inr (lb1, ub1) \<longrightarrow>
      three_way data (xval log_scale feature) lb1 ub1 o1 c1) \<and>
   (find_outliers_z_score data feature left right log_scale = Inr (o2, c2) \<and>
    z_score_bounds (xcol log_scale feature data) left right = (lb2, ub2) \<longrightarrow>
      three_way data (xval log_scale feature) lb2 ub2 o2 c2) \<and>
   (find_outliers_quantile data feature qleft qright = Inr (o3, c3) \<and>
    quantile_bounds (xcol False feature data) qleft qright = Inr (lb3, ub3) \<longrightarrow>
      three_way data (xval False feature) lb3 ub3 o3 c3)"
proof (intro conjI impI)
  assume "find_outliers_iqr data feature left right log_scale = Inr (o1, c1) \<and>
    iqr_bounds (xcol log_scale feature data) left right = Inr (lb1, ub1)"
  then show "three_way data (xval log_scale feature) lb1 ub1 o1 c1"
    using iqr_result[of data feature left right log_scale o1 c1]
    by (auto dest: split_rows_three_way)
next
  assume "find_outliers_z_score data feature left right log_scale = Inr (o2, c2) \<and>
    z_score_bounds (xcol log_scale feature data) left right = (lb2, ub2)"
  then show "three_way data (xval log_scale feature) lb2 ub2 o2 c2"
    using z_score_result[of data feature left right log_scale o2 c2]
    by (auto dest: split_rows_three_way)
next
  assume "find_outliers_quantile data feature qleft qright = Inr (o3, c3) \<and>
    quantile_bounds (xcol False feature data) qleft qright = Inr (lb3, ub3)"
  then show "three_way data (xval False feature) lb3 ub3 o3 c3"
    using quantile_result[of data feature qleft qright o3 c3]
    by (auto dest: split_rows_three_way)
qed

theorem rows_split_three_ways_witness:
  "find_outliers_iqr scenario_a ''price'' 1.5 1.5 False =
     Inr (table ''price'' [(6, Val 100)],
          table ''price''
            [(0, Val 1), (1, Val 2), (2, Val 3), (3, Val 4), (4, Val 5), (5, Val 6)]) \<and>
   iqr_bounds (xcol False ''price'' scenario_a) 1.5 1.5 = Inr (Num (- 2), Num 10) \<and>
   three_way scenario_a (xval False ''price'') (Num (- 2)) (Num 10)
     (table ''price'' [(6, Val 100)])
     (table ''price''
        [(0, Val 1), (1, Val 2), (2, Val 3), (3, Val 4), (4, Val 5), (5, Val 6)]) \<and>
   find_outliers_z_score three_rows ''v'' 1 1 False =
     Inr (table ''v'' [], table ''v'' [(1, Val 1)]) \<and>
   z_score_bounds (xcol False ''v'' three_rows) 1 1 = (Num 0, Num 2) \<and>
   three_way three_rows (xval False ''v'') (Num 0) (Num 2)
     (table ''v'' []) (table ''v'' [(1, Val 1)]) \<and>
   find_outliers_quantile five_rows ''v'' 0.25 0.75 =
     Inr (table ''v'' [(0, Val 1), (4, Val 5)], table ''v'' [(2, Val 3)]) \<and>
   quantile_bounds (xcol False ''v'' five_rows) 0.25 0.75 = Inr (Num 2, Num 4) \<and>
   three_way five_rows (xval False ''v'') (Num 2) (Num 4)
     (table ''v'' [(0, Val 1), (4, Val 5)]) (table ''v'' [(2, Val 3)]) \<and>
   \<lparr>label = 0, cells = [(''v'', Val 0)]\<rparr> \<in> set (rows three_rows) \<and>
   xval False ''v'' \<lparr>label = 0, cells = [(''v'', Val 0)]\<rparr> = Num 0 \<and>
   fle (Num 0) (Num 2) \<and>
   \<lparr>label = 0, cells = [(''v'', Val 0)]\<rparr> \<notin> set (rows (table ''v'' [])) \<and>
   \<lparr>label = 0, cells = [(''v'', Val 0)]\<rparr> \<notin> set (rows (table ''v'' [(1, Val 1)]))"
proof -
  have a: "three_way scenario_a (xval False ''price'') (Num (- 2)) (Num 10)
     (table ''price'' [(6, Val 100)])
     (table ''price''
        [(0, Val 1), (1, Val 2), (2, Val 3), (3, Val 4), (4, Val 5), (5, Val 6)])"
    using rows_split_three_ways[where data = scenario_a and feature = "''price''"
        and left = "1.5" and right = "1.5" and log_scale = False
        and ?lb1.0 = "Num (- 2)" and ?ub1.0 = "Num 10"]
      scenario_a_iqr scenario_a_bounds by blast
  have b: "three_way three_rows (xval False ''v'') (Num 0) (Num 2)
     (table ''v'' []) (table ''v'' [(1, Val 1)])"
    using rows_split_three_ways[where data = three_rows and feature = "''v''"
        and left = 1 and right = 1 and log_scale = False
        and ?lb2.0 = "Num 0" and ?ub2.0 = "Num 2"]
      three_rows_z_score_1 three_rows_bounds_1 by blast
  have c: "three_way five_rows (xval False ''v'') (Num 2) (Num 4)
     (table ''v'' [(0, Val 1), (4, Val 5)]) (table ''v'' [(2, Val 3)])"
    using rows_split_three_ways[where data = five_rows and feature = "''v''"
        and qleft = "0.25" and qright = "0.75"
        and ?lb3.0 = "Num 2" and ?ub3.0 = "Num 4"]
      five_rows_quantile five_rows_bounds by blast
  have r: "\<lparr>label = 0, cells = [(''v'', Val 0)]\<rparr> \<in> set (rows three_rows)"
    by (simp add: three_rows_def table_def)
  have x: "xval False ''v'' \<lparr>label = 0, cells = [(''v'', Val 0)]\<rparr> = Num 0"
    by (simp add: xval_table_row xcell_def)
  have o: "fle (Num 0) (Num 2)" by (simp add: fle_def)
  have n: "\<lparr>label = 0, cells = [(''v'', Val 0)]\<rparr> \<notin> set (rows (table ''v'' [])) \<and>
     \<lparr>label = 0, cells = [(''v'', Val 0)]\<rparr> \<notin> set (rows (table ''v'' [(1, Val 1)]))"
    using b r x o unfolding three_way_def by metis
  show ?thesis
    using a b c r x o n scenario_a_iqr scenario_a_bounds three_rows_z_score_1
      three_rows_bounds_1 five_rows_quantile five_rows_bounds
    by (intro conjI) simp_all
qed

text \<open>
  The claim as stated fails where the bounds are inverted: with the quantiles 0.75 and
  0.25 on the column 1, 2, 3, 4, 5 the bounds are 4 and 2, and the row with value 2,
  which equals the upper bound, is returned as an outlier (it is below the lower bound).
\<close>

theorem row_on_bound_is_outlier:
  "find_outliers_quantile five_rows ''v'' 0.75 0.25 = Inr (five_rows, table ''v'' []) \<and>
   quantile_bounds (xcol False ''v'' five_rows) 0.75 0.25 = Inr (Num 4, Num 2) \<and>
   xval False ''v'' \<lparr>label = 1, cells = [(''v'', Val 2)]\<rparr> = Num 2 \<and>
   \<lparr>label = 1, cells = [(''v'', Val 2)]\<rparr> \<in> set (rows five_rows)"
  using five_rows_quantile_inverted five_rows_bounds_inverted
  by (simp add: xval_table_row xcell_def) (simp add: five_rows_def table_def)

text \<open>
  C2. The two frames returned by each of the three functions share no row: a row that
  is below the lower bound or above the upper bound is not strictly between them.
\<close>

theorem outliers_cleaned_disjoint:
  "(find_outliers_iqr data feature left right log_scale = Inr (o1, c1) \<longrightarrow>
      disjoint_rows data o1 c1) \<and>
   (find_outliers_z_score data feature left right log_scale = Inr (o2, c2) \<longrightarrow>
      disjoint_rows data o2 c2) \<and>
   (find_outliers_quantile data feature qleft qright = Inr (o3, c3) \<longrightarrow>
      disjoint_rows data o3 c3)"
proof (intro conjI impI)
  assume "find_outliers_iqr data feature left right log_scale = Inr (o1, c1)"
  from iqr_result[OF this] show "disjoint_rows data o1 c1"
    by (auto dest: split_rows_disjoint)
next
  assume "find_outliers_z_score data feature left right log_scale = Inr (o2, c2)"
  from z_score_result[OF this] show "disjoint_rows data o2 c2"
    by (auto dest: split_rows_disjoint)
next
  assume "find_outliers_quantile data feature qleft qright = Inr (o3, c3)"
  from quantile_result[OF this] show "disjoint_rows data o3 c3"
    by (auto dest: split_rows_disjoint)
qed

theorem outliers_cleaned_disjoint_witness:
  "find_outliers_iqr scenario_a ''price'' 1.5 1.5 False =
     Inr (table ''price'' [(6, Val 100)],
          table ''price''
            [(0, Val 1), (1, Val 2), (2, Val 3), (3, Val 4), (4, Val 5), (5, Val 6)]) \<and>
   find_outliers_z_score three_rows ''v'' 0.5 0.5 False =
     Inr (table ''v'' [(0, Val 0), (2, Val 2)], table ''v'' [(1, Val 1)]) \<and>
   find_outliers_quantile five_rows ''v'' 0.25 0.75 =
     Inr (table ''v'' [(0, Val 1), (4, Val 5)], table ''v'' [(2, Val 3)]) \<and>
   disjoint_rows scenario_a (table ''price'' [(6, Val 100)])
     (table ''price''
        [(0, Val 1), (1, Val 2), (2, Val 3), (3, Val 4), (4, Val 5), (5, Val 6)]) \<and>
   disjoint_rows three_rows (table ''v'' [(0, Val 0), (2, Val 2)]) (table ''v'' [(1, Val 1)]) \<and>
   disjoint_rows five_rows (table ''v'' [(0, Val 1), (4, Val 5)]) (table ''v'' [(2, Val 3)]) \<and>
   distinct (map label (rows three_rows)) \<and>
   set (map label (rows (table ''v'' [(0, Val 0), (2, Val 2)]))) \<inter>
     set (map label (rows (table ''v'' [(1, Val 1)]))) = {}"
proof -
  have a: "disjoint_rows scenario_a (table ''price'' [(6, Val 100)])
     (table ''price''
        [(0, Val 1), (1, Val 2), (2, Val 3), (3, Val 4), (4, Val 5), (5, Val 6)])"
    using outliers_cleaned_disjoint[where data = scenario_a and feature = "''price''"
        and left = "1.5" and right = "1.5" and log_scale = False] scenario_a_iqr
    by blast
  have b: "disjoint_rows three_rows (table ''v'' [(0, Val 0), (2, Val 2)])
     (table ''v'' [(1, Val 1)])"
    using outliers_cleaned_disjoint[where data = three_rows and feature = "''v''"
        and left = "0.5" and right = "0.5" and log_scale = False] three_rows_z_score
    by blast
  have c: "disjoint_rows five_rows (table ''v'' [(0, Val 1), (4, Val 5)])
     (table ''v'' [(2, Val 3)])"
    using outliers_cleaned_disjoint[where data = five_rows and feature = "''v''"
        and qleft = "0.25" and qright = "0.75"] five_rows_quantile
    by blast
  have d: "distinct (map label (rows three_rows))"
    by (simp add: three_rows_def table_def)
  have e: "set (map label (rows (table ''v'' [(0, Val 0), (2, Val 2)]))) \<inter>
     set (map label (rows (table ''v'' [(1, Val 1)]))) = {}"
    using b d unfolding disjoint_rows_def by blast
  show ?thesis
    using a b c d e scenario_a_iqr three_rows_z_score five_rows_quantile by (intro conjI)
qed

text \<open>
  C3. Each returned frame has the columns of the input, and its rows are rows of the
  input, unchanged and in the input's order. With \<open>log_scale\<close> the transformed
  values are used for the bounds and the comparisons only.
\<close>

theorem outputs_keep_input_rows:
  "(find_outliers_iqr data feature left right log_scale = Inr (o1, c1) \<longrightarrow>
      kept_from data o1 \<and> kept_from data c1) \<and>
   (find_outliers_z_score data feature left right log_scale = Inr (o2, c2) \<longrightarrow>
      kept_from data o2 \<and> kept_from data c2) \<and>
   (find_outliers_quantile data feature qleft qright = Inr (o3, c3) \<longrightarrow>
      kept_from data o3 \<and> kept_from data c3)"
proof (intro conjI impI)
  assume "find_outliers_iqr data feature left right log_scale = Inr (o1, c1)"
  from iqr_result[OF this] show "kept_from data o1" "kept_from data c1"
    by (auto dest: split_rows_kept)
next
  assume "find_outliers_z_score data feature left right log_scale = Inr (o2, c2)"
  from z_score_result[OF this] show "kept_from data o2" "kept_from data c2"
    by (auto dest: split_rows_kept)
next
  assume "find_outliers_quantile data feature qleft qright = Inr (o3, c3)"
  from quantile_result[OF this] show "kept_from data o3" "kept_from data c3"
    by (auto dest: split_rows_kept)
qed

theorem outputs_keep_input_rows_witness:
  "find_outliers_iqr scenario_a ''price'' 1.5 1.5 False =
     Inr (table ''price'' [(6, Val 100)],
          table ''price''
            [(0, Val 1), (1, Val 2), (2, Val 3), (3, Val 4), (4, Val 5), (5, Val 6)]) \<and>
   find_outliers_z_score three_rows ''v'' 0.5 0.5 False =
     Inr (table ''v'' [(0, Val 0), (2, Val 2)], table ''v'' [(1, Val 1)]) \<and>
   find_outliers_quantile five_rows ''v'' 0.25 0.75 =
     Inr (table ''v'' [(0, Val 1), (4, Val 5)], table ''v'' [(2, Val 3)]) \<and>
   kept_from scenario_a (table ''price'' [(6, Val 100)]) \<and>
   kept_from scenario_a (table ''price''
      [(0, Val 1), (1, Val 2), (2, Val 3), (3, Val 4), (4, Val 5), (5, Val 6)]) \<and>
   kept_from three_rows (table ''v'' [(0, Val 0), (2, Val 2)]) \<and>
   kept_from three_rows (table ''v'' [(1, Val 1)]) \<and>
   kept_from five_rows (table ''v'' [(0, Val 1), (4, Val 5)]) \<and>
   kept_from five_rows (table ''v'' [(2, Val 3)])"
  using outputs_keep_input_rows[of scenario_a "''price''" "1.5" "1.5" False _ _ _ _ "0.25" "0.75"]
    outputs_keep_input_rows[of three_rows "''v''" "0.5" "0.5" False _ _ _ _ "0.25" "0.75"]
    outputs_keep_input_rows[of five_rows "''v''" "0.5" "0.5" False _ _ _ _ "0.25" "0.75"]
    scenario_a_iqr three_rows_z_score five_rows_quantile
  by blast

text \<open>
  C4, as amended. On the column 1, 2, 3, 4, 5, 6, 100 with \<open>left = right = 1.5\<close> and no
  log transform, \<open>find_outliers_iqr\<close> computes Q1 = 2.5 and Q3 = 5.5 (linear
  interpolation at the positions 1.5 and 4.5), IQR = 3 and the bounds -2 and 10; the
  outliers are exactly the row with value 100 and cleaned holds exactly the rows with
  the values 1 to 6.
\<close>

theorem scenario_a_result:
  "quantile (xcol False ''price'' scenario_a) 0.25 = Inr (Num 2.5) \<and>
   quantile (xcol False ''price'' scenario_a) 0.75 = Inr (Num 5.5) \<and>
   fsub (Num 5.5) (Num 2.5) = Num 3 \<and>
   iqr_bounds (xcol False ''price'' scenario_a) 1.5 1.5 = Inr (Num (- 2), Num 10) \<and>
   find_outliers_iqr scenario_a ''price'' 1.5 1.5 False =
     Inr (table ''price'' [(6, Val 100)],
          table ''price''
            [(0, Val 1), (1, Val 2), (2, Val 3), (3, Val 4), (4, Val 5), (5, Val 6)])"
proof -
  have "quantile (xcol False ''price'' scenario_a) 0.25 = Inr (Num 2.5)"
    unfolding scenario_a_def xcol_table by (simp add: stat_defs xcell_def)
  moreover have "quantile (xcol False ''price'' scenario_a) 0.75 = Inr (Num 5.5)"
    unfolding scenario_a_def xcol_table by (simp add: stat_defs xcell_def)
  moreover have "fsub (Num 5.5) (Num 2.5) = Num 3" by (simp add: fsub_def ovf_small)
  ultimately show ?thesis using scenario_a_bounds scenario_a_iqr by simp
qed

text \<open>The quartiles and bounds the claim states are not the computed ones.\<close>

theorem scenario_a_stated_values_differ:
  "quantile (xcol False ''price'' scenario_a) 0.25 \<noteq> Inr (Num 2) \<and>
   quantile (xcol False ''price'' scenario_a) 0.75 \<noteq> Inr (Num 5) \<and>
   iqr_bounds (xcol False ''price'' scenario_a) 1.5 1.5 \<noteq> Inr (Num (- 2.5), Num 9.5)"
proof -
  have "quantile (xcol False ''price'' scenario_a) 0.25 = Inr (Num 2.5)"
    unfolding scenario_a_def xcol_table by (simp add: stat_defs xcell_def)
  moreover have "quantile (xcol False ''price'' scenario_a) 0.75 = Inr (Num 5.5)"
    unfolding scenario_a_def xcol_table by (simp add: stat_defs xcell_def)
  ultimately show ?thesis using scenario_a_bounds by simp
qed










text \<open>
  C8. When \<open>feature\<close> is not a column of \<open>data\<close>, each of the three functions fails
  with the KeyError of \<open>data[feature]\<close> (the specification's MissingColumn): the caller
  gets the error and no pair of frames.
\<close>

theorem missing_column_fails:
  "feature \<notin> set (columns data) \<Longrightarrow>
     find_outliers_iqr data feature left right log_scale = Inl KeyError \<and>
     find_outliers_z_score data feature left right log_scale = Inl KeyError \<and>
     find_outliers_quantile data feature qleft qright = Inl KeyError"
  by (simp add: find_outliers_iqr_eq find_outliers_z_score_eq find_outliers_quantile_eq)

theorem missing_column_fails_witness:
  "''area'' \<notin> set (columns scenario_a) \<and>
   find_outliers_iqr scenario_a ''area'' 1.5 1.5 False = Inl KeyError \<and>
   find_outliers_z_score scenario_a ''area'' 3 3 True = Inl KeyError \<and>
   find_outliers_quantile scenario_a ''area'' 0.01 0.99 = Inl KeyError"
proof -
  have h: "''area'' \<notin> set (columns scenario_a)" by (simp add: scenario_a_def table_def)
  show ?thesis
    using h missing_column_fails[OF h, of "1.5" "1.5" False]
      missing_column_fails[OF h, of 3 3 True "0.01" "0.99"] by simp
qed

text \<open>
  C9, as amended. With quantile probabilities \<open>left > right\<close>,
  \<open>find_outliers_quantile\<close> raises no error and computes the bounds literally: the
  outliers are exactly the rows with a value below \<open>lower_bound\<close> or above
  \<open>upper_bound\<close>, and cleaned holds the rows with a value strictly between the bounds.
  When no feature value is infinite and the values lie within \<open>\<plusminus>2^1022\<close>, so that no
  difference of two of them overflows, the bounds satisfy \<open>lower_bound \<ge> upper_bound\<close>
  (both are NaN when the column holds no value) and cleaned is empty.
\<close>

theorem inverted_quantiles:
  assumes "feature \<in> set (columns data)" and "0 \<le> right" and "right < left" and "left \<le> 1"
  shows "quantile_bounds (xcol False feature data) left right =
           Inr (nanpercentile (xcol False feature data) left,
                nanpercentile (xcol False feature data) right) \<and>
         find_outliers_quantile data feature left right =
           Inr (rows_where data (xval False feature)
                  (is_outlier (nanpercentile (xcol False feature data) left)
                              (nanpercentile (xcol False feature data) right)),
                rows_where data (xval False feature)
                  (is_cleaned (nanpercentile (xcol False feature data) left)
                              (nanpercentile (xcol False feature data) right))) \<and>
         (finite_col (xcol False feature data) \<and> moderate_col (xcol False feature data) \<longrightarrow>
            (nanpercentile (xcol False feature data) left = NaN \<and>
             nanpercentile (xcol False feature data) right = NaN \<or>
             fle (nanpercentile (xcol False feature data) right)
                 (nanpercentile (xcol False feature data) left)) \<and>
            find_outliers_quantile data feature left right =
              Inr (rows_where data (xval False feature)
                     (is_outlier (nanpercentile (xcol False feature data) left)
                                 (nanpercentile (xcol False feature data) right)),
                   no_rows data))"
proof -
  define x where "x = xcol False feature data"
  define lb where "lb = nanpercentile x left"
  define ub where "ub = nanpercentile x right"
  have l0: "0 \<le> left" and r1: "right \<le> 1" using assms by simp_all
  have b: "quantile_bounds x left right = Inr (lb, ub)"
    using assms l0 r1 by (simp add: quantile_bounds_def quantile_def lb_def ub_def)
  have res: "find_outliers_quantile data feature left right =
      Inr (rows_where data (xval False feature) (is_outlier lb ub),
           rows_where data (xval False feature) (is_cleaned lb ub))"
    using find_outliers_quantile_rows[OF assms(1) b[unfolded x_def]] by simp
  have ord: "lb = NaN \<and> ub = NaN \<or> fle ub lb" if fm: "finite_col x" "moderate_col x"
  proof (cases "dropna x = []")
    case True
    then show ?thesis by (simp add: lb_def ub_def nanpercentile_def)
  next
    case False
    then have "lb \<noteq> NaN" "ub \<noteq> NaN"
      using nanpercentile_finite[OF fm l0 assms(4)] nanpercentile_finite[OF fm assms(2) r1]
      by (auto simp: lb_def ub_def)
    then show ?thesis
      using nanpercentile_mono[OF fm(2), of right left] assms by (simp add: lb_def ub_def)
  qed
  have c: "rows_where data (xval False feature) (is_cleaned lb ub) = no_rows data"
    if fm: "finite_col x" "moderate_col x"
    using ord[OF fm] not_cleaned_inverted[of ub lb] not_cleaned_NaN[of lb ub]
    by (auto simp: rows_where_def no_rows_def)
  show ?thesis
    using b res ord c unfolding lb_def ub_def x_def by simp
qed

theorem inverted_quantiles_witness:
  "''v'' \<in> set (columns five_rows) \<and> (0::real) \<le> 0.25 \<and> (0.25::real) < 0.75 \<and> (0.75::real) \<le> 1 \<and>
   finite_col (xcol False ''v'' five_rows) \<and> moderate_col (xcol False ''v'' five_rows) \<and>
   quantile_bounds (xcol False ''v'' five_rows) 0.75 0.25 = Inr (Num 4, Num 2) \<and>
   fle (Num 2) (Num 4) \<and>
   find_outliers_quantile five_rows ''v'' 0.75 0.25 = Inr (five_rows, table ''v'' [])"
proof -
  have c: "''v'' \<in> set (columns five_rows)" by (simp add: five_rows_def table_def)
  have h: "(0::real) \<le> 0.25" "(0.25::real) < 0.75" "(0.75::real) \<le> 1" by simp_all
  have m: "moderate_col (xcol False ''v'' five_rows)"
    unfolding five_rows_def xcol_table by (simp add: moderate_col_def xcell_def moderate_small del: moderate.simps)
  have f: "finite_col (xcol False ''v'' five_rows)"
    unfolding five_rows_def xcol_table by (simp add: finite_col_def xcell_def)
  from inverted_quantiles[OF c h] f m
  have "quantile_bounds (xcol False ''v'' five_rows) 0.75 0.25 =
          Inr (nanpercentile (xcol False ''v'' five_rows) 0.75,
               nanpercentile (xcol False ''v'' five_rows) 0.25)"
    and "nanpercentile (xcol False ''v'' five_rows) 0.75 = NaN \<and>
         nanpercentile (xcol False ''v'' five_rows) 0.25 = NaN \<or>
         fle (nanpercentile (xcol False ''v'' five_rows) 0.25)
             (nanpercentile (xcol False ''v'' five_rows) 0.75)"
    by simp_all
  then have "fle (Num 2) (Num 4)" using five_rows_bounds_inverted by auto
  then show ?thesis
    using c h f m five_rows_bounds_inverted five_rows_quantile_inverted by simp
qed

text \<open>
  The claim as stated fails on a constant column: the bounds are equal, not strictly
  inverted. On the column 5, NaN, 5, 5 the quantiles 1 and 0 are both 5. It also fails
  when an interpolation overflows: on the column \<open>-2^1023\<close>, \<open>2^1023\<close> the quantiles
  0.75 and 0.25 are \<open>-inf\<close> and \<open>+inf\<close>, the bounds are in order, and cleaned holds both
  rows.
\<close>

theorem constant_column_bounds_equal:
  "quantile_bounds (xcol False ''v'' flat_rows) 1 0 = Inr (Num 5, Num 5) \<and>
   \<not> fgt (Num 5) (Num 5) \<and>
   quantile_bounds (xcol False ''v'' huge_rows) 0.75 0.25 = Inr (NegInf, PosInf) \<and>
   \<not> fgt NegInf PosInf \<and>
   find_outliers_quantile huge_rows ''v'' 0.75 0.25 = Inr (table ''v'' [], huge_rows)"
proof -
  have a: "quantile_bounds (xcol False ''v'' flat_rows) 1 0 = Inr (Num 5, Num 5)"
    unfolding flat_rows_def xcol_table by (simp add: stat_defs xcell_def)
  show ?thesis
    using a huge_rows_quantile_bounds(3) huge_rows_quantile(3) by (simp add: fgt_def)
qed

text \<open>
  C10, as amended. Whenever both computed bounds are NaN, no error is raised and both
  returned frames are empty, because every comparison with a NaN bound is false. Both
  bounds are NaN for a feature column without a value in each of the three functions
  (with quantile probabilities in [0, 1] for \<open>find_outliers_quantile\<close>), and for a
  column with a single value in \<open>find_outliers_z_score\<close>, where the sample standard
  deviation is NaN. When one bound alone is NaN, cleaned is empty and the outliers are
  the rows strictly beyond the other bound.
\<close>

theorem nan_bounds_leave_rows_out:
  assumes "feature \<in> set (columns data)"
  shows "(iqr_bounds (xcol log_scale feature data) left right = Inr (lb1, ub1) \<longrightarrow>
            nan_bound_split data (xval log_scale feature) lb1 ub1
              (find_outliers_iqr data feature left right log_scale)) \<and>
         (z_score_bounds (xcol log_scale feature data) left right = (lb2, ub2) \<longrightarrow>
            nan_bound_split data (xval log_scale feature) lb2 ub2
              (find_outliers_z_score data feature left right log_scale)) \<and>
         (quantile_bounds (xcol False feature data) qleft qright = Inr (lb3, ub3) \<longrightarrow>
            nan_bound_split data (xval False feature) lb3 ub3
              (find_outliers_quantile data feature qleft qright)) \<and>
         (dropna (xcol log_scale feature data) = [] \<longrightarrow>
            iqr_bounds (xcol log_scale feature data) left right = Inr (NaN, NaN) \<and>
            z_score_bounds (xcol log_scale feature data) left right = (NaN, NaN)) \<and>
         (dropna (xcol False feature data) = [] \<and>
          0 \<le> qleft \<and> qleft \<le> 1 \<and> 0 \<le> qright \<and> qright \<le> 1 \<longrightarrow>
            quantile_bounds (xcol False feature data) qleft qright = Inr (NaN, NaN)) \<and>
         (length (dropna (xcol log_scale feature data)) = 1 \<longrightarrow>
            z_score_bounds (xcol log_scale feature data) left right = (NaN, NaN))"
proof (intro conjI impI)
  assume "iqr_bounds (xcol log_scale feature data) left right = Inr (lb1, ub1)"
  from find_outliers_iqr_rows[OF assms this]
  show "nan_bound_split data (xval log_scale feature) lb1 ub1
      (find_outliers_iqr data feature left right log_scale)"
    by (rule nan_bound_split_rows)
next
  assume "z_score_bounds (xcol log_scale feature data) left right = (lb2, ub2)"
  from find_outliers_z_score_rows[OF assms this]
  show "nan_bound_split data (xval log_scale feature) lb2 ub2
      (find_outliers_z_score data feature left right log_scale)"
    by (rule nan_bound_split_rows)
next
  assume "quantile_bounds (xcol False feature data) qleft qright = Inr (lb3, ub3)"
  from find_outliers_quantile_rows[OF assms this]
  show "nan_bound_split data (xval False feature) lb3 ub3
      (find_outliers_quantile data feature qleft qright)"
    by (rule nan_bound_split_rows)
next
  assume e: "dropna (xcol log_scale feature data) = []"
  show "iqr_bounds (xcol log_scale feature data) left right = Inr (NaN, NaN)"
    using e by (rule iqr_bounds_empty)
  show "z_score_bounds (xcol log_scale feature data) left right = (NaN, NaN)"
    using e by (simp add: z_score_bounds_few)
next
  assume "dropna (xcol False feature data) = [] \<and>
          0 \<le> qleft \<and> qleft \<le> 1 \<and> 0 \<le> qright \<and> qright \<le> 1"
  then show "quantile_bounds (xcol False feature data) qleft qright = Inr (NaN, NaN)"
    by (simp add: quantile_bounds_empty)
next
  assume "length (dropna (xcol log_scale feature data)) = 1"
  then show "z_score_bounds (xcol log_scale feature data) left right = (NaN, NaN)"
    by (simp add: z_score_bounds_few)
qed

theorem nan_bounds_leave_rows_out_witness:
  "''v'' \<in> set (columns (table ''v'' [])) \<and>
   dropna (xcol False ''v'' (table ''v'' [])) = [] \<and>
   find_outliers_iqr (table ''v'' []) ''v'' 1.5 1.5 False =
     Inr (no_rows (table ''v'' []), no_rows (table ''v'' [])) \<and>
   find_outliers_z_score (table ''v'' []) ''v'' 3 3 False =
     Inr (no_rows (table ''v'' []), no_rows (table ''v'' [])) \<and>
   find_outliers_quantile (table ''v'' []) ''v'' 0.01 0.99 =
     Inr (no_rows (table ''v'' []), no_rows (table ''v'' [])) \<and>
   ''v'' \<in> set (columns missing_rows) \<and>
   dropna (xcol False ''v'' missing_rows) = [] \<and>
   iqr_bounds (xcol False ''v'' missing_rows) 1.5 1.5 = Inr (NaN, NaN) \<and>
   find_outliers_iqr missing_rows ''v'' 1.5 1.5 False =
     Inr (no_rows missing_rows, no_rows missing_rows) \<and>
   quantile_bounds (xcol False ''v'' missing_rows) 0.01 0.99 = Inr (NaN, NaN) \<and>
   find_outliers_quantile missing_rows ''v'' 0.01 0.99 =
     Inr (no_rows missing_rows, no_rows missing_rows) \<and>
   ''v'' \<in> set (columns single_row) \<and>
   length (dropna (xcol False ''v'' single_row)) = 1 \<and>
   z_score_bounds (xcol False ''v'' single_row) 3 3 = (NaN, NaN) \<and>
   find_outliers_z_score single_row ''v'' 3 3 False =
     Inr (no_rows single_row, no_rows single_row) \<and>
   iqr_bounds (xcol True ''v'' log_edge_rows) 0 (- 1) = Inr (NaN, NegInf) \<and>
   find_outliers_iqr log_edge_rows ''v'' 0 (- 1) True =
     Inr (rows_where log_edge_rows (xval True ''v'') (is_outlier NaN NegInf),
          no_rows log_edge_rows)"
proof -
  have c0: "''v'' \<in> set (columns (table ''v'' []))" by (simp add: table_def)
  have d0: "dropna (xcol False ''v'' (table ''v'' [])) = []"
    unfolding xcol_table by (simp add: dropna_def)
  note z = nan_bounds_leave_rows_out[OF c0, where log_scale = False and left = "1.5"
      and right = "1.5" and qleft = "0.01" and qright = "0.99"
      and ?lb1.0 = NaN and ?ub1.0 = NaN and ?lb2.0 = NaN and ?ub2.0 = NaN
      and ?lb3.0 = NaN and ?ub3.0 = NaN]
  note z' = nan_bounds_leave_rows_out[OF c0, where log_scale = False and left = 3
      and right = 3 and ?lb2.0 = NaN and ?ub2.0 = NaN]
  have zi: "find_outliers_iqr (table ''v'' []) ''v'' 1.5 1.5 False =
      Inr (no_rows (table ''v'' []), no_rows (table ''v'' []))"
    using z d0 unfolding nan_bound_split_def by blast
  have zz: "find_outliers_z_score (table ''v'' []) ''v'' 3 3 False =
      Inr (no_rows (table ''v'' []), no_rows (table ''v'' []))"
    using z' d0 unfolding nan_bound_split_def by blast
  have "quantile_bounds (xcol False ''v'' (table ''v'' [])) 0.01 0.99 = Inr (NaN, NaN)"
    using z d0 by simp
  then have zq: "find_outliers_quantile (table ''v'' []) ''v'' 0.01 0.99 =
      Inr (no_rows (table ''v'' []), no_rows (table ''v'' []))"
    using z unfolding nan_bound_split_def by blast
  have cm: "''v'' \<in> set (columns missing_rows)" by (simp add: missing_rows_def table_def)
  have cs: "''v'' \<in> set (columns single_row)" by (simp add: single_row_def table_def)
  have ce: "''v'' \<in> set (columns log_edge_rows)" by (simp add: log_edge_rows_def table_def)
  have dm: "dropna (xcol False ''v'' missing_rows) = []"
    unfolding missing_rows_def xcol_table by (simp add: dropna_def xcell_def)
  have ds: "length (dropna (xcol False ''v'' single_row)) = 1"
    unfolding single_row_def xcol_table by (simp add: dropna_def xcell_def)
  note m = nan_bounds_leave_rows_out[OF cm, where log_scale = False and left = "1.5"
      and right = "1.5" and qleft = "0.01" and qright = "0.99"
      and ?lb1.0 = NaN and ?ub1.0 = NaN and ?lb3.0 = NaN and ?ub3.0 = NaN]
  have mi: "iqr_bounds (xcol False ''v'' missing_rows) 1.5 1.5 = Inr (NaN, NaN)"
    using m dm by blast
  have mq: "quantile_bounds (xcol False ''v'' missing_rows) 0.01 0.99 = Inr (NaN, NaN)"
    using m dm by simp
  have mri: "find_outliers_iqr missing_rows ''v'' 1.5 1.5 False =
      Inr (no_rows missing_rows, no_rows missing_rows)"
    using m mi unfolding nan_bound_split_def by blast
  have mrq: "find_outliers_quantile missing_rows ''v'' 0.01 0.99 =
      Inr (no_rows missing_rows, no_rows missing_rows)"
    using m mq unfolding nan_bound_split_def by blast
  note s = nan_bounds_leave_rows_out[OF cs, where log_scale = False and left = 3
      and right = 3 and ?lb2.0 = NaN and ?ub2.0 = NaN]
  have sz: "z_score_bounds (xcol False ''v'' single_row) 3 3 = (NaN, NaN)"
    using s ds by blast
  have srz: "find_outliers_z_score single_row ''v'' 3 3 False =
      Inr (no_rows single_row, no_rows single_row)"
    using s sz unfolding nan_bound_split_def by blast
  note e = nan_bounds_leave_rows_out[OF ce, where log_scale = True and left = 0
      and right = "- 1" and ?lb1.0 = NaN and ?ub1.0 = NegInf]
  have er: "find_outliers_iqr log_edge_rows ''v'' 0 (- 1) True =
      Inr (rows_where log_edge_rows (xval True ''v'') (is_outlier NaN NegInf),
           no_rows log_edge_rows)"
    using e log_edge_bounds unfolding nan_bound_split_def by blast
  show ?thesis
    using c0 d0 zi zz zq cm dm mi mri mq mrq cs ds sz srz log_edge_bounds er by (intro conjI)
qed

text \<open>
  The claim as stated fails when one bound alone is NaN. On the column -1, 0, 0 with
  \<open>log_scale=True\<close>, \<open>left = 0\<close> and \<open>right = -1\<close>: the transformed column is
  \<open>-inf\<close>, 0, 0, so Q1 is \<open>-inf\<close> (halfway between \<open>-inf\<close> and 0), Q3 is 0 and the
  range is \<open>inf\<close>; the lower bound \<open>-inf - inf * 0\<close> is NaN and the upper bound
  \<open>0 + inf * (-1)\<close> is \<open>-inf\<close>, and the two rows with value 0 are returned as
  outliers.
\<close>

theorem one_nan_bound_keeps_outliers:
  "xcol True ''v'' log_edge_rows = [NegInf, Num 0, Num 0] \<and>
   quantile (xcol True ''v'' log_edge_rows) 0.25 = Inr NegInf \<and>
   quantile (xcol True ''v'' log_edge_rows) 0.75 = Inr (Num 0) \<and>
   iqr_bounds (xcol True ''v'' log_edge_rows) 0 (- 1) = Inr (NaN, NegInf) \<and>
   find_outliers_iqr log_edge_rows ''v'' 0 (- 1) True =
     Inr (table ''v'' [(1, Val 0), (2, Val 0)], table ''v'' [])"
proof -
  have x: "xcol True ''v'' log_edge_rows = [NegInf, Num 0, Num 0]"
    unfolding log_edge_rows_def xcol_table by (simp add: xcell_def ovf_small)
  have "quantile (xcol True ''v'' log_edge_rows) 0.25 = Inr NegInf"
    unfolding x by (simp add: stat_defs)
  moreover have "quantile (xcol True ''v'' log_edge_rows) 0.75 = Inr (Num 0)"
    unfolding x by (simp add: stat_defs)
  ultimately show ?thesis using x log_edge_bounds log_edge_iqr by simp
qed

end

